theory Spec2Isabelle
  imports Main
begin

section \<open>Time\<close>

text \<open>
  A JavaScript \<open>Date\<close> holds a time value in milliseconds. The services use the local
  getters and setters of \<open>Date\<close> only, together with comparisons and differences of
  time values. The fields of a date are plain arithmetic on milliseconds, as ECMA-262
  defines them (\<open>Day(t) = floor(t / msPerDay)\<close>); the local fields are that
  arithmetic on the local time of the process's time zone.

  In the gateway (the rate limiter) an instant is the milliseconds of the deployment's
  local clock, for a deployment time zone with a fixed offset to UTC (no daylight-saving
  jumps). In the billing service an instant is the time value itself (milliseconds since
  1970-01-01 00:00 UTC, what \<open>getTime()\<close> answers) and the time zone is a parameter
  of every function that reads or sets a local field, so that zones with daylight-saving
  changes are covered.
\<close>

type_synonym instant = int

definition msPerDay :: int where
  "msPerDay = 86400000"

definition Day :: "instant \<Rightarrow> int" where
  "Day t = t div msPerDay"

definition TimeWithinDay :: "instant \<Rightarrow> int" where
  "TimeWithinDay t = t mod msPerDay"

text \<open>
  \<open>d.setHours(24, 0, 0, 0)\<close>: the day of \<open>d\<close> is kept and the time within the day
  becomes 24 hours, which is 00:00 of the following day.
\<close>

definition setHours24 :: "instant \<Rightarrow> instant" where
  "setHours24 t = Day t * msPerDay + 24 * 3600000"

text \<open>
  The calendar of ECMA-262 (Year Number, Month Number, Date Number, \<open>MakeDay\<close>,
  \<open>MakeDate\<close>). \<open>YearFromDay\<close> finds the year that holds a day from an estimate that
  is at most one year off.
\<close>

definition DayFromYear :: "int \<Rightarrow> int" where
  "DayFromYear y = 365 * (y - 1970) + (y - 1969) div 4 - (y - 1901) div 100 + (y - 1601) div 400"

definition InLeapYear :: "int \<Rightarrow> int" where
  "InLeapYear y = (if (y mod 4 = 0 \<and> y mod 100 \<noteq> 0) \<or> y mod 400 = 0 then 1 else 0)"

definition YearFromDay :: "int \<Rightarrow> int" where
  "YearFromDay d =
     (let y = 1970 + (d * 400) div 146097
      in if d < DayFromYear y then y - 1 else if DayFromYear (y + 1) \<le> d then y + 1 else y)"

definition YearFromTime :: "instant \<Rightarrow> int" where
  "YearFromTime t = YearFromDay (Day t)"

definition DayWithinYear :: "instant \<Rightarrow> int" where
  "DayWithinYear t = Day t - DayFromYear (YearFromTime t)"

text \<open>The day within the year on which month \<open>m\<close> (0 to 11) begins.\<close>

definition monthStart :: "int \<Rightarrow> int \<Rightarrow> int" where
  "monthStart leap m =
     (if m = 0 then 0 else if m = 1 then 31 else if m = 2 then 59 + leap
      else if m = 3 then 90 + leap else if m = 4 then 120 + leap else if m = 5 then 151 + leap
      else if m = 6 then 181 + leap else if m = 7 then 212 + leap else if m = 8 then 243 + leap
      else if m = 9 then 273 + leap else if m = 10 then 304 + leap else 334 + leap)"

definition MonthFromTime :: "instant \<Rightarrow> int" where
  "MonthFromTime t =
     (let d = DayWithinYear t; leap = InLeapYear (YearFromTime t)
      in if d < 31 then 0 else if d < 59 + leap then 1 else if d < 90 + leap then 2
         else if d < 120 + leap then 3 else if d < 151 + leap then 4 else if d < 181 + leap then 5
         else if d < 212 + leap then 6 else if d < 243 + leap then 7 else if d < 273 + leap then 8
         else if d < 304 + leap then 9 else if d < 334 + leap then 10 else 11)"

definition DateFromTime :: "instant \<Rightarrow> int" where
  "DateFromTime t =
     DayWithinYear t - monthStart (InLeapYear (YearFromTime t)) (MonthFromTime t) + 1"

text \<open>
  \<open>MakeDay(year, month, date)\<close>: the month may lie outside 0 to 11 and the date outside
  the month; both carry over.
\<close>

definition MakeDay :: "int \<Rightarrow> int \<Rightarrow> int \<Rightarrow> int" where
  "MakeDay year month date =
     DayFromYear (year + month div 12)
       + monthStart (InLeapYear (year + month div 12)) (month mod 12) + date - 1"

definition MakeDate :: "int \<Rightarrow> int \<Rightarrow> instant" where
  "MakeDate day time = day * msPerDay + time"

text \<open>
  The time zone of the process, as ECMA-262 uses it: \<open>LocalTZA(t, true)\<close> is the
  offset of local time from UTC in force at the time value \<open>t\<close>, and
  \<open>LocalTZA(t, false)\<close> the offset that is taken for the local time \<open>t\<close> (where a
  local time occurs twice or not at all, the offset before the change). Then
  \<open>LocalTime(t) = t + LocalTZA(t, true)\<close> and \<open>UTC(t) = t - LocalTZA(t, false)\<close>.
\<close>

record timezone =
  offsetAt :: "instant \<Rightarrow> int"
  offsetOfLocal :: "int \<Rightarrow> int"

definition LocalTZA :: "timezone \<Rightarrow> int \<Rightarrow> bool \<Rightarrow> int" where
  "LocalTZA tz t isUTC = (if isUTC then offsetAt tz t else offsetOfLocal tz t)"

definition LocalTime :: "timezone \<Rightarrow> instant \<Rightarrow> int" where
  "LocalTime tz t = t + LocalTZA tz t True"

definition UTC :: "timezone \<Rightarrow> int \<Rightarrow> instant" where
  "UTC tz t = t - LocalTZA tz t False"

text \<open>\<open>d.getFullYear()\<close>, \<open>d.getMonth()\<close> and \<open>d.getDate()\<close>.\<close>

definition getFullYear :: "timezone \<Rightarrow> instant \<Rightarrow> int" where
  "getFullYear tz t = YearFromTime (LocalTime tz t)"

definition getMonth :: "timezone \<Rightarrow> instant \<Rightarrow> int" where
  "getMonth tz t = MonthFromTime (LocalTime tz t)"

definition getDate :: "timezone \<Rightarrow> instant \<Rightarrow> int" where
  "getDate tz t = DateFromTime (LocalTime tz t)"

text \<open>
  \<open>d.setMonth(m)\<close> and \<open>d.setDate(n)\<close>: the new date is made from the local fields
  of \<open>d\<close>, of which the others are kept, and taken back to a time value.
\<close>

definition setMonth :: "timezone \<Rightarrow> instant \<Rightarrow> int \<Rightarrow> instant" where
  "setMonth tz t m =
     UTC tz (MakeDate (MakeDay (YearFromTime (LocalTime tz t)) m (DateFromTime (LocalTime tz t)))
               (TimeWithinDay (LocalTime tz t)))"

definition setDate :: "timezone \<Rightarrow> instant \<Rightarrow> int \<Rightarrow> instant" where
  "setDate tz t n =
     UTC tz (MakeDate (MakeDay (YearFromTime (LocalTime tz t)) (MonthFromTime (LocalTime tz t)) n)
               (TimeWithinDay (LocalTime tz t)))"

text \<open>\<open>periodEnd.setMonth(periodEnd.getMonth() + 1)\<close>.\<close>

definition addMonth :: "timezone \<Rightarrow> instant \<Rightarrow> instant" where
  "addMonth tz t = setMonth tz t (getMonth tz t + 1)"

text \<open>\<open>Math.ceil(a / b)\<close> for integers \<open>a\<close> and \<open>b > 0\<close>.\<close>

definition ceilDiv :: "int \<Rightarrow> int \<Rightarrow> int" where
  "ceilDiv a b = - ((- a) div b)"

section \<open>Strings\<close>

text \<open>
  The string functions of JavaScript that the invoice code uses, on ASCII strings and
  integers of any size: \<open>String(n)\<close>, \<open>padStart\<close>, \<open>startsWith\<close>, \<open>split\<close>,
  \<open>parseInt\<close> (\<open>None\<close> is \<open>NaN\<close>) and \<open>toLocaleString\<close> for the locale \<open>en-US\<close>.
\<close>

function showNat :: "nat \<Rightarrow> string" where
  "showNat n =
     (if n < 10 then [char_of (48 + n)] else showNat (n div 10) @ [char_of (48 + n mod 10)])"
  by pat_completeness auto
termination
  by (relation "measure id") auto

declare showNat.simps [simp del]

definition showInt :: "int \<Rightarrow> string" where
  "showInt i = (if i < 0 then CHR ''-'' # showNat (nat (- i)) else showNat (nat i))"

definition showNumber :: "int option \<Rightarrow> string" where
  "showNumber n = (case n of None \<Rightarrow> ''NaN'' | Some i \<Rightarrow> showInt i)"

definition padStart :: "nat \<Rightarrow> char \<Rightarrow> string \<Rightarrow> string" where
  "padStart n c str = replicate (n - length str) c @ str"

definition startsWith :: "string \<Rightarrow> string \<Rightarrow> bool" where
  "startsWith str p = (take (length p) str = p)"

fun splitOn :: "char \<Rightarrow> string \<Rightarrow> string list" where
  "splitOn c [] = [[]]"
| "splitOn c (x # xs) =
     (if x = c then [] # splitOn c xs
      else (case splitOn c xs of [] \<Rightarrow> [[x]] | w # ws \<Rightarrow> (x # w) # ws))"

text \<open>\<open>parts[i]\<close>; \<open>None\<close> is \<open>undefined\<close>.\<close>

definition element :: "'a list \<Rightarrow> nat \<Rightarrow> 'a option" where
  "element xs i = (if i < length xs then Some (xs ! i) else None)"

definition isWhiteSpace :: "char \<Rightarrow> bool" where
  "isWhiteSpace c = ((of_char c :: nat) \<in> {9, 10, 11, 12, 13, 32})"

definition digitValue :: "char \<Rightarrow> nat option" where
  "digitValue c =
     (let n = (of_char c :: nat)
      in if 48 \<le> n \<and> n \<le> 57 then Some (n - 48)
         else if 97 \<le> n \<and> n \<le> 122 then Some (n - 87)
         else if 65 \<le> n \<and> n \<le> 90 then Some (n - 55)
         else None)"

definition isDigitOf :: "nat \<Rightarrow> char \<Rightarrow> bool" where
  "isDigitOf radix c = (case digitValue c of None \<Rightarrow> False | Some v \<Rightarrow> v < radix)"

definition digitsValue :: "nat \<Rightarrow> string \<Rightarrow> int option" where
  "digitsValue radix str =
     (case takeWhile (isDigitOf radix) str of
        [] \<Rightarrow> None
      | ds \<Rightarrow>
          Some (fold (\<lambda>c acc. case digitValue c of None \<Rightarrow> acc
                                 | Some v \<Rightarrow> acc * int radix + int v) ds 0))"

definition parseUnsigned :: "string \<Rightarrow> int option" where
  "parseUnsigned str =
     (if take 2 str = ''0x'' \<or> take 2 str = ''0X'' then digitsValue 16 (drop 2 str)
      else digitsValue 10 str)"

definition parseInt :: "string option \<Rightarrow> int option" where
  "parseInt arg =
     (case arg of
        None \<Rightarrow> None
      | Some str \<Rightarrow>
          (case dropWhile isWhiteSpace str of
             [] \<Rightarrow> None
           | c # rest \<Rightarrow>
               if c = CHR ''-'' then map_option uminus (parseUnsigned rest)
               else if c = CHR ''+'' then parseUnsigned rest
               else parseUnsigned (c # rest)))"

fun group3 :: "string \<Rightarrow> string" where
  "group3 (a # b # c # d # rest) = a # b # c # CHR '','' # group3 (d # rest)"
| "group3 str = str"

definition toLocaleString :: "int \<Rightarrow> string" where
  "toLocaleString i =
     (if i < 0 then CHR ''-'' # rev (group3 (rev (showNat (nat (- i)))))
      else rev (group3 (rev (showNat (nat i)))))"

definition monthName :: "int \<Rightarrow> string" where
  "monthName m =
     [''January'', ''February'', ''March'', ''April'', ''May'', ''June'', ''July'', ''August'',
      ''September'', ''October'', ''November'', ''December''] ! nat m"

text \<open>The order of \<open>orderBy: { invoiceNumber: 'desc' }\<close> on ASCII strings.\<close>

fun strLess :: "string \<Rightarrow> string \<Rightarrow> bool" where
  "strLess [] [] = False"
| "strLess [] (y # ys) = True"
| "strLess (x # xs) [] = False"
| "strLess (x # xs) (y # ys) =
     ((of_char x :: nat) < of_char y \<or> (x = y \<and> strLess xs ys))"

section \<open>Computations that may throw\<close>

text \<open>
  An \<open>async\<close> method is a function from the state of the outside world to a
  result and a new state; the result is \<open>Inl e\<close> when the method throws (its promise
  rejects with) \<open>e\<close>. \<open>andThen\<close> is \<open>await\<close> followed by the rest of the body,
  \<open>tryCatch\<close> is a \<open>try { ... } catch (error) { ... }\<close> block.
\<close>

definition ret :: "'a \<Rightarrow> 's \<Rightarrow> ('e + 'a) \<times> 's" where
  "ret x s = (Inr x, s)"

definition andThen ::
  "('s \<Rightarrow> ('e + 'a) \<times> 's) \<Rightarrow> ('a \<Rightarrow> 's \<Rightarrow> ('e + 'b) \<times> 's) \<Rightarrow> 's \<Rightarrow> ('e + 'b) \<times> 's" where
  "andThen m f s = (case m s of (Inl e, s') \<Rightarrow> (Inl e, s') | (Inr x, s') \<Rightarrow> f x s')"

definition tryCatch ::
  "('s \<Rightarrow> ('e + 'a) \<times> 's) \<Rightarrow> ('e \<Rightarrow> 's \<Rightarrow> ('e + 'a) \<times> 's) \<Rightarrow> 's \<Rightarrow> ('e + 'a) \<times> 's" where
  "tryCatch m h s = (case m s of (Inl e, s') \<Rightarrow> h e s' | (Inr x, s') \<Rightarrow> (Inr x, s'))"

section \<open>The gateway's fast store (RedisService)\<close>

text \<open>
  The rate limiter keeps one hash per customer with the fields \<open>count\<close> and
  \<open>resetAt\<close>. Redis stores strings; the code reads \<open>count\<close> only through
  \<open>parseInt\<close> and \<open>resetAt\<close> only through \<open>new Date(...)\<close>, so a field is modelled
  by what its reader makes of it: \<open>Missing\<close> (no such field: the reader gets
  \<open>undefined\<close>), \<open>Garbled\<close> (a string the reader turns into \<open>NaN\<close> or an invalid date)
  or \<open>Val x\<close>. The rate limiter writes the number \<open>1\<close> or \<open>usageCount + 1\<close> and a
  date at a full second, which the readers give back unchanged.
  A key that does not exist and a hash without fields are the same thing in Redis:
  \<open>hgetall\<close> answers \<open>{}\<close> for both.
\<close>

datatype 'a field = Missing | Garbled | Val 'a

record rate_hash =
  h_count :: "int field"
  h_resetAt :: "instant field"

definition emptyHash :: rate_hash where
  "emptyHash = \<lparr>h_count = Missing, h_resetAt = Missing\<rparr>"

text \<open>
  The world of the gateway process: the hashes and lists of the Redis server, the lines
  written to the console, and \<open>faults\<close>, the fate of the coming Redis calls in order
  (\<open>True\<close>: the call fails, its promise rejects and the server state is not changed;
  when the list is used up every further call succeeds).
\<close>

datatype exn = RedisError | TypeError

text \<open>
  A console line: \<open>console.log(label, ...)\<close> or \<open>console.error(label, error)\<close>; of the
  arguments of \<open>console.log\<close> only the label is kept.
\<close>

datatype console_line = LogLine string | ErrorLine string exn

record world =
  hashes :: "string \<Rightarrow> rate_hash"
  lists :: "string \<Rightarrow> string list"
  faults :: "bool list"
  console :: "console_line list"

definition consoleWrite :: "console_line \<Rightarrow> world \<Rightarrow> (exn + unit) \<times> world" where
  "consoleWrite l s = (Inr (), s\<lparr>console := console s @ [l]\<rparr>)"

definition redisCall :: "(world \<Rightarrow> 'a \<times> world) \<Rightarrow> world \<Rightarrow> (exn + 'a) \<times> world" where
  "redisCall cmd s =
     (case faults s of
        [] \<Rightarrow> (case cmd s of (x, s') \<Rightarrow> (Inr x, s'))
      | failing # fs \<Rightarrow>
          (if failing then (Inl RedisError, s\<lparr>faults := fs\<rparr>)
           else (case cmd (s\<lparr>faults := fs\<rparr>) of (x, s') \<Rightarrow> (Inr x, s'))))"

text \<open>The next \<open>n\<close> Redis calls succeed.\<close>

definition callsSucceed :: "nat \<Rightarrow> world \<Rightarrow> bool" where
  "callsSucceed n s = (True \<notin> set (take n (faults s)))"

definition hgetAll :: "string \<Rightarrow> world \<Rightarrow> (exn + rate_hash) \<times> world" where
  "hgetAll key = redisCall (\<lambda>s. (hashes s key, s))"

text \<open>\<open>hset(key, 'count', n)\<close>; a \<open>NaN\<close> is written as the string \<open>NaN\<close>.\<close>

definition hset_count :: "string \<Rightarrow> int option \<Rightarrow> world \<Rightarrow> (exn + unit) \<times> world" where
  "hset_count key n =
     redisCall (\<lambda>s. ((), s\<lparr>hashes := (hashes s)
        (key := (hashes s key)\<lparr>h_count := (case n of None \<Rightarrow> Garbled | Some c \<Rightarrow> Val c)\<rparr>)\<rparr>))"

text \<open>\<open>hset(key, 'resetAt', date)\<close>.\<close>

definition hset_resetAt :: "string \<Rightarrow> instant \<Rightarrow> world \<Rightarrow> (exn + unit) \<times> world" where
  "hset_resetAt key t =
     redisCall (\<lambda>s. ((), s\<lparr>hashes := (hashes s)(key := (hashes s key)\<lparr>h_resetAt := Val t\<rparr>)\<rparr>))"

text \<open>\<open>lpush(key, value)\<close> puts the value at the head and answers the new length.\<close>

definition lpush :: "string \<Rightarrow> string \<Rightarrow> world \<Rightarrow> (exn + nat) \<times> world" where
  "lpush key v =
     redisCall (\<lambda>s. (Suc (length (lists s key)), s\<lparr>lists := (lists s)(key := v # lists s key)\<rparr>))"

text \<open>\<open>ltrim(key, 0, stop)\<close> with \<open>stop \<ge> 0\<close> keeps the elements \<open>0..stop\<close>.\<close>

definition ltrim0 :: "string \<Rightarrow> nat \<Rightarrow> world \<Rightarrow> (exn + string) \<times> world" where
  "ltrim0 key stop =
     redisCall (\<lambda>s. (''OK'', s\<lparr>lists := (lists s)(key := take (Suc stop) (lists s key))\<rparr>))"

section \<open>RateLimitService\<close>

text \<open>
  The \<open>resetAt\<close> of the answer is a string: \<open>resetAt.toDateString()\<close> (the local
  calendar day of the new reset instant, given here by its day number) after a reset,
  the stored field as it is otherwise.
\<close>

datatype reset_text = DateString int | Stored "instant field"

record rate_result =
  allowed :: bool
  remaining :: "int option"
  resetAt :: reset_text

text \<open>\<open>parseInt(userUsage.count)\<close>; \<open>None\<close> is \<open>NaN\<close>.\<close>

definition parseCount :: "rate_hash \<Rightarrow> int option" where
  "parseCount h = (case h_count h of Val c \<Rightarrow> Some c | _ \<Rightarrow> None)"

text \<open>
  \<open>new Date(userUsage.resetAt) < now\<close>; a comparison with an invalid date is false.
\<close>

definition resetBefore :: "rate_hash \<Rightarrow> instant \<Rightarrow> bool" where
  "resetBefore h now = (case h_resetAt h of Val r \<Rightarrow> r < now | _ \<Rightarrow> False)"

text \<open>\<open>!userUsage || Object.keys(userUsage).length === 0\<close>.\<close>

definition noFields :: "rate_hash \<Rightarrow> bool" where
  "noFields h = (h_count h = Missing \<and> h_resetAt h = Missing)"

text \<open>
  \<open>checkAndIncrement(customerId, limit)\<close>. \<open>now\<close> is the clock reading of the first
  line, \<open>now2\<close> the one of the \<open>new Date()\<close> that a reset branch takes.
\<close>

definition checkAndIncrement ::
  "instant \<Rightarrow> instant \<Rightarrow> string \<Rightarrow> int \<Rightarrow> world \<Rightarrow> (exn + rate_result) \<times> world" where
  "checkAndIncrement now now2 customerId limit =
     andThen (hgetAll (''rate:limit:'' @ customerId)) (\<lambda>userUsage.
       if noFields userUsage then
         andThen (hset_count (''rate:limit:'' @ customerId) (Some 1)) (\<lambda>_.
         andThen (hset_resetAt (''rate:limit:'' @ customerId) (setHours24 now2)) (\<lambda>_.
         ret \<lparr>allowed = True, remaining = Some (limit - 1),
              resetAt = DateString (Day (setHours24 now2))\<rparr>))
       else if resetBefore userUsage now then
         andThen (hset_count (''rate:limit:'' @ customerId) (Some 1)) (\<lambda>_.
         andThen (hset_resetAt (''rate:limit:'' @ customerId) (setHours24 now2)) (\<lambda>_.
         ret \<lparr>allowed = True, remaining = Some (limit - 1),
              resetAt = DateString (Day (setHours24 now2))\<rparr>))
       else
         (case parseCount userUsage of
            Some usageCount \<Rightarrow>
              if usageCount \<ge> limit then
                ret \<lparr>allowed = False, remaining = Some 0, resetAt = Stored (h_resetAt userUsage)\<rparr>
              else
                andThen (hset_count (''rate:limit:'' @ customerId) (Some (usageCount + 1))) (\<lambda>_.
                ret \<lparr>allowed = True, remaining = Some (limit - usageCount),
                     resetAt = Stored (h_resetAt userUsage)\<rparr>)
          | None \<Rightarrow>
              andThen (hset_count (''rate:limit:'' @ customerId) None) (\<lambda>_.
              ret \<lparr>allowed = True, remaining = None, resetAt = Stored (h_resetAt userUsage)\<rparr>)))"

section \<open>UsageTrackingService\<close>

record UsageLog =
  u_customerId :: string
  u_apiKey :: string
  u_apiKeyId :: int
  u_endpoint :: string
  u_method :: string
  u_statusCode :: string
  u_responseTime :: int
  u_timestamp :: instant

definition MAX_LOGS_PER_CUSTOMER :: nat where
  "MAX_LOGS_PER_CUSTOMER = 1000"

definition MAX_LOGS_TOTAL :: nat where
  "MAX_LOGS_TOTAL = 5000"

text \<open>
  \<open>JSON.stringify\<close> is a parameter of the model: it gives the text of a usage record,
  or throws (\<open>Inl\<close>). \<open>evaluate\<close> runs such a pure step inside an \<open>async\<close> body.
\<close>

definition evaluate :: "'e + 'a \<Rightarrow> 's \<Rightarrow> ('e + 'a) \<times> 's" where
  "evaluate r s = (r, s)"

text \<open>The statements inside the \<open>try\<close> block of \<open>addUsageLog\<close>.\<close>

definition addUsageLog_try ::
  "(UsageLog \<Rightarrow> exn + string) \<Rightarrow> UsageLog \<Rightarrow> world \<Rightarrow> (exn + unit) \<times> world" where
  "addUsageLog_try stringify usage =
     andThen (evaluate (stringify usage)) (\<lambda>json1.
     andThen (lpush (''usage:logs:'' @ u_customerId usage) json1) (\<lambda>_.
     andThen (ltrim0 (''usage:logs:'' @ u_customerId usage) (MAX_LOGS_PER_CUSTOMER - 1)) (\<lambda>_.
     andThen (evaluate (stringify usage)) (\<lambda>json2.
     andThen (lpush ''usage:logs:all'' json2) (\<lambda>_.
     andThen (ltrim0 ''usage:logs:all'' (MAX_LOGS_TOTAL - 1)) (\<lambda>_.
     consoleWrite (LogLine ''Usage tracked:'')))))))"

definition addUsageLog ::
  "(UsageLog \<Rightarrow> exn + string) \<Rightarrow> UsageLog \<Rightarrow> world \<Rightarrow> (exn + unit) \<times> world" where
  "addUsageLog stringify usage =
     tryCatch (addUsageLog_try stringify usage)
       (\<lambda>error. consoleWrite (ErrorLine ''Failed to track usage:'' error))"

section \<open>ProxyService\<close>

record developer =
  d_id :: int
  d_name :: string
  d_apiUrl :: string

text \<open>
  The Express request as \<open>forwardRequests\<close> reads it: \<open>url\<close> is the path with the query
  string, \<open>developer\<close> is the developer record that the API-key middleware resolved
  for the owner of the authenticated customer and attached to the request.
\<close>

record request =
  req_url :: string
  req_method :: string
  req_headers :: "(string \<times> string) list"
  req_body :: "string option"
  req_developer :: developer

definition toLowerCase :: "string \<Rightarrow> string" where
  "toLowerCase = map (\<lambda>c. if 65 \<le> (of_char c :: nat) \<and> (of_char c :: nat) \<le> 90
                             then char_of ((of_char c :: nat) + 32) else c)"

definition headersToRemove :: "string list" where
  "headersToRemove = [''host'', ''x-api-key'', ''x-forwarded-for'', ''x-real-ip'', ''connection'',
     ''content-length'', ''content-type'']"

definition cleanHeaders :: "(string \<times> string) list \<Rightarrow> (string \<times> string) list" where
  "cleanHeaders headers = filter (\<lambda>(key, v). toLowerCase key \<notin> set headersToRemove) headers"

text \<open>\<open>req.url.replace(/^\/api/, '') || '/'\<close>.\<close>

definition urlPath :: "string \<Rightarrow> string" where
  "urlPath url =
     (let stripped = (if take 4 url = ''/api'' then drop 4 url else url)
      in if stripped = [] then ''/'' else stripped)"

text \<open>
  \<open>`${this.configService.get('api.targetUrl')}${urlPath}` || `https://httpbin.org${urlPath}`\<close>.
  The configuration value is \<open>None\<close> when the key is not set; a template prints
  \<open>undefined\<close> for it. The right operand of \<open>||\<close> is taken when the left string is
  empty.
\<close>

definition targetUrl :: "string option \<Rightarrow> string \<Rightarrow> string" where
  "targetUrl configured url =
     (let left = (case configured of None \<Rightarrow> ''undefined'' | Some base \<Rightarrow> base) @ urlPath url
      in if left = [] then ''https://httpbin.org'' @ urlPath url else left)"

text \<open>The call that \<open>forwardRequests\<close> makes on the HTTP client, with its timeout.\<close>

datatype http_call =
    HttpGet string "(string \<times> string) list" nat
  | HttpPost string "string option" "(string \<times> string) list" nat
  | HttpPut string "string option" "(string \<times> string) list" nat
  | HttpDelete string "(string \<times> string) list" nat

fun call_url :: "http_call \<Rightarrow> string" where
  "call_url (HttpGet u h t) = u"
| "call_url (HttpPost u b h t) = u"
| "call_url (HttpPut u b h t) = u"
| "call_url (HttpDelete u h t) = u"

text \<open>The \<open>switch (method)\<close>; \<open>None\<close> is the \<open>default\<close> branch, which throws.\<close>

definition outgoing :: "string option \<Rightarrow> request \<Rightarrow> http_call option" where
  "outgoing configured req =
     (if req_method req = ''GET'' then
        Some (HttpGet (targetUrl configured (req_url req)) (cleanHeaders (req_headers req)) 30000)
      else if req_method req = ''POST'' then
        Some (HttpPost (targetUrl configured (req_url req)) (req_body req)
                (cleanHeaders (req_headers req)) 30000)
      else if req_method req = ''PUT'' then
        Some (HttpPut (targetUrl configured (req_url req)) (req_body req)
                (cleanHeaders (req_headers req)) 30000)
      else if req_method req = ''DELETE'' then
        Some (HttpDelete (targetUrl configured (req_url req)) (cleanHeaders (req_headers req)) 30000)
      else None)"

text \<open>
  What the upstream does with a call: it answers with a status and a body, or there is
  no answer (time-out, transport error). The HTTP client rejects an answer whose status
  is not 2xx with an error that carries the response.
\<close>

datatype upstream_outcome = Replied int string | NoReply

datatype http_exception = HttpException string int

definition forwardRequests ::
  "string option \<Rightarrow> (http_call \<Rightarrow> upstream_outcome) \<Rightarrow> request \<Rightarrow> http_exception + string" where
  "forwardRequests configured upstream req =
     (case outgoing configured req of
        None \<Rightarrow> Inl (HttpException ''Gateway error'' 502)
      | Some call \<Rightarrow>
          (case upstream call of
             Replied status data \<Rightarrow>
               if 200 \<le> status \<and> status < 300 then Inr data
               else Inl (HttpException data status)
           | NoReply \<Rightarrow> Inl (HttpException ''Gateway error'' 502)))"

definition sampleRequest :: request where
  "sampleRequest = \<lparr>req_url = ''/api/get?x=1'', req_method = ''GET'',
     req_headers = [(''Host'', ''gateway''), (''accept'', ''*/*'')], req_body = None,
     req_developer = \<lparr>d_id = 2, d_name = ''JSONPlaceholder'',
        d_apiUrl = ''https://jsonplaceholder.typicode.com''\<rparr>\<rparr>"

section \<open>The durable store of the billing service\<close>

text \<open>
  The tables of the Prisma schema that the billing code reads and writes, each as the
  list of its rows in insertion order. A \<open>DECIMAL(10,2)\<close> amount is an integer number
  of cents; \<open>Decimal.toNumber()\<close> and the way back into a \<open>DECIMAL(10,2)\<close> column lose
  nothing on such values. The store is taken to be reachable: a Prisma call throws only
  for a violated constraint.
\<close>

datatype InvoiceStatus = PENDING | PAID | OVERDUE | CANCELLED

record Tier =
  t_id :: int
  t_name :: string
  t_price :: int
  t_rateLimit :: int

record Customer =
  c_id :: int
  c_name :: string
  c_email :: string
  c_tierId :: int
  c_isActive :: bool
  c_createdAt :: instant

record UsageHistory =
  uh_id :: int
  uh_customerId :: int
  uh_timestamp :: instant

record Invoice =
  i_id :: int
  i_invoiceNumber :: string
  i_customerId :: int
  i_periodStart :: instant
  i_periodEnd :: instant
  i_totalUsage :: int
  i_amount :: int
  i_status :: InvoiceStatus
  i_dueDate :: instant
  i_paidAt :: "instant option"
  i_stripeInvoiceId :: "string option"
  i_createdAt :: instant

record InvoiceLineItem =
  li_id :: int
  li_invoiceId :: int
  li_description :: string
  li_quantity :: int
  li_unitPrice :: int
  li_amount :: int
  li_createdAt :: instant

text \<open>
  \<open>invoiceSeq\<close> and \<open>lineItemSeq\<close> are the sequences behind the \<open>SERIAL\<close> keys: the
  last value handed out.
\<close>

record db =
  tiers :: "Tier list"
  customers :: "Customer list"
  usageHistory :: "UsageHistory list"
  invoices :: "Invoice list"
  lineItems :: "InvoiceLineItem list"
  invoiceSeq :: int
  lineItemSeq :: int

datatype billing_error =
    NotFoundException
  | BadRequestException
  | UniqueConstraintViolation
  | ForeignKeyViolation
  | Error

text \<open>\<open>customer.findUnique({ where: { id } })\<close>.\<close>

definition findCustomer :: "db \<Rightarrow> int \<Rightarrow> Customer option" where
  "findCustomer s customerId = find (\<lambda>c. c_id c = customerId) (customers s)"

text \<open>
  \<open>invoice.findFirst({ where: { customerId }, orderBy: { periodEnd: 'desc' } })\<close>: of the
  customer's invoices one with the latest \<open>periodEnd\<close>.
\<close>

definition lastInvoiceOf :: "db \<Rightarrow> int \<Rightarrow> Invoice option" where
  "lastInvoiceOf s customerId =
     (case filter (\<lambda>i. i_customerId i = customerId) (invoices s) of
        [] \<Rightarrow> None
      | x # xs \<Rightarrow> Some (fold (\<lambda>i best. if i_periodEnd best < i_periodEnd i then i else best) xs x))"

section \<open>BillingService.getCurrentBillingPeriod\<close>

record billing_period =
  periodStart :: instant
  periodEnd :: instant
  daysRemaining :: int
  cycleDay :: int

definition MAX_ITERATIONS :: nat where
  "MAX_ITERATIONS = 120"

text \<open>
  The method has three \<open>while (iterations < MAX_ITERATIONS)\<close> loops with the same body but
  for the check that throws: \<open>periodStart > now\<close> when the customer has no invoice, none
  when the newest invoice ends in the future, and
  \<open>periodStart.getFullYear() > now.getFullYear() + 10\<close> when it starts from the newest
  invoice. \<open>periodLoop\<close> is that loop; it ends by \<open>break\<close> with the period and the
  iteration count, by a throw, or with the iterations used up.
\<close>

datatype loop_check = StartInFuture | NoCheck | TooFarAhead

datatype loop_end = Break instant instant nat | Threw | UsedUp

definition checkThrows :: "timezone \<Rightarrow> loop_check \<Rightarrow> instant \<Rightarrow> instant \<Rightarrow> bool" where
  "checkThrows tz chk now pStart =
     (case chk of
        StartInFuture \<Rightarrow> now < pStart
      | NoCheck \<Rightarrow> False
      | TooFarAhead \<Rightarrow> getFullYear tz now + 10 < getFullYear tz pStart)"

function periodLoop ::
  "timezone \<Rightarrow> loop_check \<Rightarrow> instant \<Rightarrow> instant \<Rightarrow> nat \<Rightarrow> loop_end" where
  "periodLoop tz chk now pStart iterations =
     (if iterations < MAX_ITERATIONS then
        (if pStart \<le> now \<and> now < addMonth tz pStart
         then Break pStart (addMonth tz pStart) iterations
         else if checkThrows tz chk now pStart then Threw
         else periodLoop tz chk now (addMonth tz pStart) (Suc iterations))
      else UsedUp)"
  by pat_completeness auto
termination
  by (relation "measure (\<lambda>(tz, chk, now, pStart, iterations). MAX_ITERATIONS - iterations)") auto

declare periodLoop.simps [simp del]

text \<open>
  What follows the loops: the throw after \<open>MAX_ITERATIONS\<close>, \<open>daysRemaining\<close> and the
  result, for the cycle day that the branch chose. \<open>daysRemaining\<close> is
  \<open>Math.ceil((periodEnd.getTime() - now.getTime()) / (1000 * 60 * 60 * 24))\<close>, on the
  time values.
\<close>

definition finishPeriod :: "instant \<Rightarrow> int \<Rightarrow> loop_end \<Rightarrow> billing_error + billing_period" where
  "finishPeriod now cday e =
     (case e of
        Break pStart pEnd iterations \<Rightarrow>
          Inr \<lparr>periodStart = pStart, periodEnd = pEnd,
               daysRemaining = ceilDiv (pEnd - now) msPerDay, cycleDay = cday\<rparr>
      | Threw \<Rightarrow> Inl Error
      | UsedUp \<Rightarrow> Inl Error)"

definition getCurrentBillingPeriod ::
  "timezone \<Rightarrow> db \<Rightarrow> instant \<Rightarrow> int \<Rightarrow> billing_error + billing_period" where
  "getCurrentBillingPeriod tz s now customerId =
     (case findCustomer s customerId of
        None \<Rightarrow> Inl NotFoundException
      | Some customer \<Rightarrow>
          (case lastInvoiceOf s customerId of
             None \<Rightarrow>
               if getFullYear tz now + 100 < getFullYear tz (c_createdAt customer) then Inl Error
               else finishPeriod now (getDate tz (c_createdAt customer))
                      (periodLoop tz StartInFuture now (c_createdAt customer) 0)
           | Some lastInvoice \<Rightarrow>
               if getFullYear tz now + 100 < getFullYear tz (i_periodEnd lastInvoice) then Inl Error
               else if now < i_periodEnd lastInvoice then
                 finishPeriod now (getDate tz (i_periodEnd lastInvoice))
                   (periodLoop tz NoCheck now (c_createdAt customer) 0)
               else
                 finishPeriod now (getDate tz (i_periodEnd lastInvoice))
                   (periodLoop tz TooFarAhead now
                      (setDate tz (i_periodEnd lastInvoice)
                         (getDate tz (i_periodEnd lastInvoice) + 1)) 0)))"

section \<open>PricingService and InvoiceService\<close>

text \<open>\<open>customer.tier\<close> of \<open>include: { tier: true }\<close>.\<close>

definition tierOf :: "db \<Rightarrow> Customer \<Rightarrow> Tier option" where
  "tierOf s customer = find (\<lambda>t. t_id t = c_tierId customer) (tiers s)"

text \<open>\<open>calculateUsageForPeriod(customerId, startDate, endDate).usage\<close>.\<close>

definition calculateUsageForPeriod :: "db \<Rightarrow> int \<Rightarrow> instant \<Rightarrow> instant \<Rightarrow> int" where
  "calculateUsageForPeriod s customerId startDate endDate =
     int (length (filter (\<lambda>u. uh_customerId u = customerId \<and> startDate \<le> uh_timestamp u
                              \<and> uh_timestamp u < endDate) (usageHistory s)))"

record CreateInvoiceDto =
  dto_customerId :: int
  dto_periodStart :: instant
  dto_periodEnd :: instant

record InvoiceLineItemResponseDto =
  ri_id :: int
  ri_description :: string
  ri_quantity :: int
  ri_unitPrice :: int
  ri_amount :: int
  ri_createdAt :: instant

record InvoiceResponseDto =
  r_id :: int
  r_invoiceNumber :: string
  r_customerId :: int
  r_customerName :: string
  r_customerEmail :: string
  r_periodStart :: instant
  r_periodEnd :: instant
  r_totalUsage :: int
  r_amount :: int
  r_status :: InvoiceStatus
  r_dueDate :: instant
  r_paidAt :: "instant option"
  r_stripeInvoiceId :: "string option"
  r_createdAt :: instant
  r_lineItems :: "InvoiceLineItemResponseDto list"

text \<open>
  A field of the \<open>data\<close> of a Prisma update: \<open>Undefined\<close> leaves the column as it is,
  \<open>Null\<close> clears it, \<open>Value x\<close> sets it.
\<close>

datatype 'a optional = Undefined | Null | Value 'a

record UpdateInvoiceStatusDto =
  us_status :: InvoiceStatus
  us_paidAt :: "instant optional"
  us_stripeInvoiceId :: "string optional"

definition assign :: "'a optional \<Rightarrow> 'a option \<Rightarrow> 'a option" where
  "assign new old = (case new of Undefined \<Rightarrow> old | Null \<Rightarrow> None | Value x \<Rightarrow> Some x)"

text \<open>\<open>checkForDuplicateInvoice(customerId, periodStart, periodEnd)\<close>.\<close>

definition checkForDuplicateInvoice :: "db \<Rightarrow> int \<Rightarrow> instant \<Rightarrow> instant \<Rightarrow> bool" where
  "checkForDuplicateInvoice s customerId pStart pEnd =
     (find (\<lambda>i. i_customerId i = customerId \<and> i_periodStart i = pStart \<and> i_periodEnd i = pEnd)
        (invoices s) \<noteq> None)"

text \<open>
  \<open>generateInvoiceNumber()\<close>: the greatest number with this month's prefix, its fourth
  part parsed and increased by one.
\<close>

definition latestNumber :: "string \<Rightarrow> db \<Rightarrow> string option" where
  "latestNumber prefix s =
     (case filter (\<lambda>n. startsWith n prefix) (map i_invoiceNumber (invoices s)) of
        [] \<Rightarrow> None
      | n # ns \<Rightarrow> Some (fold (\<lambda>m best. if strLess best m then m else best) ns n))"

definition generateInvoiceNumber :: "timezone \<Rightarrow> db \<Rightarrow> instant \<Rightarrow> string" where
  "generateInvoiceNumber tz s now =
     (let prefix = ''INV-'' @ showInt (getFullYear tz now) @ ''-''
                   @ padStart 2 (CHR ''0'') (showInt (getMonth tz now + 1)) @ ''-'';
          sequence = (case latestNumber prefix s of
                        None \<Rightarrow> Some 1
                      | Some latest \<Rightarrow>
                          map_option (\<lambda>n. n + 1) (parseInt (element (splitOn (CHR ''-'') latest) 3)))
      in prefix @ padStart 3 (CHR ''0'') (showNumber sequence))"

text \<open>
  \<open>invoice.create\<close>: the key comes from the sequence; the insert fails on a key or an
  invoice number that is taken and on a customer that does not exist.
\<close>

definition invoiceCreate :: "Invoice \<Rightarrow> db \<Rightarrow> (billing_error + Invoice) \<times> db" where
  "invoiceCreate row s =
     (if invoiceSeq s + 1 \<in> set (map i_id (invoices s)) then
        (Inl UniqueConstraintViolation, s\<lparr>invoiceSeq := invoiceSeq s + 1\<rparr>)
      else if i_invoiceNumber row \<in> set (map i_invoiceNumber (invoices s)) then
        (Inl UniqueConstraintViolation, s\<lparr>invoiceSeq := invoiceSeq s + 1\<rparr>)
      else if findCustomer s (i_customerId row) = None then
        (Inl ForeignKeyViolation, s\<lparr>invoiceSeq := invoiceSeq s + 1\<rparr>)
      else
        (Inr (row\<lparr>i_id := invoiceSeq s + 1\<rparr>),
         s\<lparr>invoiceSeq := invoiceSeq s + 1,
           invoices := invoices s @ [row\<lparr>i_id := invoiceSeq s + 1\<rparr>]\<rparr>))"

text \<open>
  \<open>invoiceLineItem.createMany\<close>: one insert statement for all the rows, which get the
  next keys of the sequence; it fails as a whole on a key that is taken or an invoice
  that does not exist.
\<close>

definition numbered :: "int \<Rightarrow> InvoiceLineItem list \<Rightarrow> InvoiceLineItem list" where
  "numbered seq items =
     map (\<lambda>(k, item). item\<lparr>li_id := seq + 1 + int k\<rparr>) (zip [0..<length items] items)"

definition lineItemCreateMany :: "InvoiceLineItem list \<Rightarrow> db \<Rightarrow> (billing_error + nat) \<times> db" where
  "lineItemCreateMany items s =
     (if set (map li_id (numbered (lineItemSeq s) items)) \<inter> set (map li_id (lineItems s)) \<noteq> {} then
        (Inl UniqueConstraintViolation, s\<lparr>lineItemSeq := lineItemSeq s + int (length items)\<rparr>)
      else if \<not> set (map li_invoiceId items) \<subseteq> set (map i_id (invoices s)) then
        (Inl ForeignKeyViolation, s\<lparr>lineItemSeq := lineItemSeq s + int (length items)\<rparr>)
      else
        (Inr (length items),
         s\<lparr>lineItemSeq := lineItemSeq s + int (length items),
           lineItems := lineItems s @ numbered (lineItemSeq s) items\<rparr>))"

text \<open>
  \<open>createInvoiceLineItems(invoiceId, customerId, periodStart, periodEnd)\<close>; \<open>now\<close> is
  the \<open>createdAt\<close> default of the rows and \<open>lineItemsData\<close> the array \<open>lineItems\<close>
  (the keys of its rows are given by the insert).
\<close>

definition lineItemsData ::
  "timezone \<Rightarrow> instant \<Rightarrow> int \<Rightarrow> Tier \<Rightarrow> int \<Rightarrow> instant \<Rightarrow> InvoiceLineItem list" where
  "lineItemsData tz now invoiceId tier usage pStart =
     [\<lparr>li_id = 0, li_invoiceId = invoiceId,
        li_description = t_name tier @ '' Plan - '' @ monthName (getMonth tz pStart)
                           @ '' '' @ showInt (getFullYear tz pStart),
        li_quantity = 1, li_unitPrice = t_price tier, li_amount = t_price tier,
        li_createdAt = now\<rparr>,
      \<lparr>li_id = 0, li_invoiceId = invoiceId,
        li_description = ''API Calls: '' @ toLocaleString usage @ '' requests'',
        li_quantity = usage, li_unitPrice = 0, li_amount = 0, li_createdAt = now\<rparr>]"

definition createInvoiceLineItems ::
  "timezone \<Rightarrow> instant \<Rightarrow> int \<Rightarrow> int \<Rightarrow> instant \<Rightarrow> instant \<Rightarrow> db
     \<Rightarrow> (billing_error + unit) \<times> db" where
  "createInvoiceLineItems tz now invoiceId customerId pStart pEnd s =
     (case findCustomer s customerId of
        None \<Rightarrow> (Inl NotFoundException, s)
      | Some customer \<Rightarrow>
          (case tierOf s customer of
             None \<Rightarrow> (Inl Error, s)
           | Some tier \<Rightarrow>
               andThen (lineItemCreateMany
                  (lineItemsData tz now invoiceId tier
                     (calculateUsageForPeriod s customerId pStart pEnd) pStart))
                 (\<lambda>_. ret ()) s))"

text \<open>\<open>getInvoiceById(invoiceId)\<close>, with \<open>include: { lineItems: true, customer: true }\<close>.\<close>

definition lineItemDto :: "InvoiceLineItem \<Rightarrow> InvoiceLineItemResponseDto" where
  "lineItemDto item =
     \<lparr>ri_id = li_id item, ri_description = li_description item, ri_quantity = li_quantity item,
      ri_unitPrice = li_unitPrice item, ri_amount = li_amount item,
      ri_createdAt = li_createdAt item\<rparr>"

definition getInvoiceById :: "int \<Rightarrow> db \<Rightarrow> (billing_error + InvoiceResponseDto) \<times> db" where
  "getInvoiceById invoiceId s =
     (case find (\<lambda>i. i_id i = invoiceId) (invoices s) of
        None \<Rightarrow> (Inl NotFoundException, s)
      | Some invoice \<Rightarrow>
          (case findCustomer s (i_customerId invoice) of
             None \<Rightarrow> (Inl Error, s)
           | Some customer \<Rightarrow>
               (Inr \<lparr>r_id = i_id invoice, r_invoiceNumber = i_invoiceNumber invoice,
                     r_customerId = i_customerId invoice, r_customerName = c_name customer,
                     r_customerEmail = c_email customer, r_periodStart = i_periodStart invoice,
                     r_periodEnd = i_periodEnd invoice, r_totalUsage = i_totalUsage invoice,
                     r_amount = i_amount invoice, r_status = i_status invoice,
                     r_dueDate = i_dueDate invoice, r_paidAt = i_paidAt invoice,
                     r_stripeInvoiceId = i_stripeInvoiceId invoice,
                     r_createdAt = i_createdAt invoice,
                     r_lineItems = map lineItemDto
                       (filter (\<lambda>item. li_invoiceId item = i_id invoice) (lineItems s))\<rparr>, s)))"

text \<open>
  The clock readings of one \<open>generateInvoice\<close>: in \<open>generateInvoiceNumber\<close>, for the
  due date, and the \<open>createdAt\<close> defaults of the invoice row and of the line items.
\<close>

record gen_clock =
  atNumber :: instant
  atDueDate :: instant
  atInvoiceRow :: instant
  atLineItems :: instant

text \<open>The \<open>data\<close> of \<open>invoice.create\<close> (the key is given by the insert).\<close>

definition invoiceData ::
  "timezone \<Rightarrow> gen_clock \<Rightarrow> CreateInvoiceDto \<Rightarrow> db \<Rightarrow> Tier \<Rightarrow> Invoice" where
  "invoiceData tz clock dto s tier =
     \<lparr>i_id = 0,
      i_invoiceNumber = generateInvoiceNumber tz s (atNumber clock),
      i_customerId = dto_customerId dto,
      i_periodStart = dto_periodStart dto,
      i_periodEnd = dto_periodEnd dto,
      i_totalUsage = calculateUsageForPeriod s (dto_customerId dto)
                       (dto_periodStart dto) (dto_periodEnd dto),
      i_amount = t_price tier,
      i_status = PENDING,
      i_dueDate = setDate tz (atDueDate clock) (getDate tz (atDueDate clock) + 7),
      i_paidAt = None,
      i_stripeInvoiceId = None,
      i_createdAt = atInvoiceRow clock\<rparr>"

definition generateInvoice ::
  "timezone \<Rightarrow> gen_clock \<Rightarrow> CreateInvoiceDto \<Rightarrow> db
     \<Rightarrow> (billing_error + InvoiceResponseDto) \<times> db" where
  "generateInvoice tz clock dto s =
     (if checkForDuplicateInvoice s (dto_customerId dto) (dto_periodStart dto) (dto_periodEnd dto)
      then (Inl BadRequestException, s)
      else
        (case findCustomer s (dto_customerId dto) of
           None \<Rightarrow> (Inl NotFoundException, s)
         | Some customer \<Rightarrow>
             (case tierOf s customer of
                None \<Rightarrow> (Inl Error, s)
              | Some tier \<Rightarrow>
                  andThen (invoiceCreate (invoiceData tz clock dto s tier))
                  (\<lambda>invoice.
                     andThen (createInvoiceLineItems tz (atLineItems clock) (i_id invoice)
                                (dto_customerId dto) (dto_periodStart dto) (dto_periodEnd dto))
                     (\<lambda>_. getInvoiceById (i_id invoice))) s)))"

text \<open>
  \<open>invoice.update({ where: { id }, data: { status, paidAt, stripeInvoiceId } })\<close>; it
  fails when the new \<open>stripeInvoiceId\<close> belongs to another invoice. \<open>applyUpdate\<close> is
  the effect of the statement on one row.
\<close>

definition applyUpdate :: "UpdateInvoiceStatusDto \<Rightarrow> int \<Rightarrow> Invoice \<Rightarrow> Invoice" where
  "applyUpdate updateDto invoiceId i =
     (if i_id i = invoiceId
      then i\<lparr>i_status := us_status updateDto,
             i_paidAt := assign (us_paidAt updateDto) (i_paidAt i),
             i_stripeInvoiceId := assign (us_stripeInvoiceId updateDto) (i_stripeInvoiceId i)\<rparr>
      else i)"

definition invoiceUpdate :: "int \<Rightarrow> UpdateInvoiceStatusDto \<Rightarrow> db \<Rightarrow> (billing_error + unit) \<times> db" where
  "invoiceUpdate invoiceId updateDto s =
     (if (case us_stripeInvoiceId updateDto of
            Value x \<Rightarrow> Some x \<in> set (map i_stripeInvoiceId
                                   (filter (\<lambda>i. i_id i \<noteq> invoiceId) (invoices s)))
          | _ \<Rightarrow> False)
      then (Inl UniqueConstraintViolation, s)
      else (Inr (), s\<lparr>invoices := map (applyUpdate updateDto invoiceId) (invoices s)\<rparr>))"

definition updateInvoiceStatus ::
  "int \<Rightarrow> UpdateInvoiceStatusDto \<Rightarrow> db \<Rightarrow> (billing_error + InvoiceResponseDto) \<times> db" where
  "updateInvoiceStatus invoiceId updateDto s =
     (case find (\<lambda>i. i_id i = invoiceId) (invoices s) of
        None \<Rightarrow> (Inl NotFoundException, s)
      | Some invoice \<Rightarrow>
          andThen (invoiceUpdate invoiceId updateDto) (\<lambda>_. getInvoiceById invoiceId) s)"

text \<open>
  \<open>markInvoiceAsPaid(invoiceId, paidAt?)\<close>; \<open>paidAt || new Date()\<close> is the argument when
  there is one (a \<open>Date\<close> is never falsy) and the clock reading \<open>now\<close> otherwise.
\<close>

definition markInvoiceAsPaid ::
  "instant \<Rightarrow> int \<Rightarrow> instant option \<Rightarrow> db \<Rightarrow> (billing_error + InvoiceResponseDto) \<times> db" where
  "markInvoiceAsPaid now invoiceId paidAt =
     updateInvoiceStatus invoiceId
       \<lparr>us_status = PAID,
        us_paidAt = Value (case paidAt of None \<Rightarrow> now | Some p \<Rightarrow> p),
        us_stripeInvoiceId = Undefined\<rparr>"

text \<open>\<open>markOverdueInvoices()\<close> answers the number of rows it changed.\<close>

definition markOverdueInvoices :: "instant \<Rightarrow> db \<Rightarrow> (billing_error + nat) \<times> db" where
  "markOverdueInvoices now s =
     (Inr (length (filter (\<lambda>i. i_status i = PENDING \<and> i_dueDate i < now) (invoices s))),
      s\<lparr>invoices := map (\<lambda>i. if i_status i = PENDING \<and> i_dueDate i < now
                              then i\<lparr>i_status := OVERDUE\<rparr> else i) (invoices s)\<rparr>)"

text \<open>The store after a \<open>generateInvoice\<close> that went through, for the customer's tier.\<close>

definition afterGenerate ::
  "timezone \<Rightarrow> gen_clock \<Rightarrow> CreateInvoiceDto \<Rightarrow> db \<Rightarrow> Tier \<Rightarrow> db" where
  "afterGenerate tz clock dto s tier =
     s\<lparr>invoiceSeq := invoiceSeq s + 1,
       invoices := invoices s @ [(invoiceData tz clock dto s tier)\<lparr>i_id := invoiceSeq s + 1\<rparr>],
       lineItemSeq := lineItemSeq s + 2,
       lineItems := lineItems s @ numbered (lineItemSeq s)
          (lineItemsData tz (atLineItems clock) (invoiceSeq s + 1) tier
             (calculateUsageForPeriod s (dto_customerId dto) (dto_periodStart dto) (dto_periodEnd dto))
             (dto_periodStart dto))\<rparr>"

text \<open>
  The operations of the invoice engine, and the store after one of them or after a
  sequence of them, whether the operation throws or not (an operation that throws may
  have written before).
\<close>

datatype invoice_op =
    GenerateInvoice gen_clock CreateInvoiceDto
  | UpdateInvoiceStatus int UpdateInvoiceStatusDto
  | MarkInvoiceAsPaid instant int "instant option"
  | MarkOverdueInvoices instant

fun perform :: "timezone \<Rightarrow> invoice_op \<Rightarrow> db \<Rightarrow> db" where
  "perform tz (GenerateInvoice clock dto) s = snd (generateInvoice tz clock dto s)"
| "perform tz (UpdateInvoiceStatus invoiceId updateDto) s =
     snd (updateInvoiceStatus invoiceId updateDto s)"
| "perform tz (MarkInvoiceAsPaid now invoiceId paidAt) s =
     snd (markInvoiceAsPaid now invoiceId paidAt s)"
| "perform tz (MarkOverdueInvoices now) s = snd (markOverdueInvoices now s)"

fun performAll :: "timezone \<Rightarrow> invoice_op list \<Rightarrow> db \<Rightarrow> db" where
  "performAll tz [] s = s"
| "performAll tz (x # xs) s = performAll tz xs (perform tz x s)"

text \<open>The invariant: every invoice with status \<open>PAID\<close> has a \<open>paidAt\<close>.\<close>

definition paidHasPaidAt :: "db \<Rightarrow> bool" where
  "paidHasPaidAt s = list_all (\<lambda>i. i_status i = PAID \<longrightarrow> i_paidAt i \<noteq> None) (invoices s)"

text \<open>
  An \<open>updateInvoiceStatus\<close> that sets \<open>PAID\<close> either carries a \<open>paidAt\<close> or leaves the
  column alone on an invoice that has one already. The other operations are not
  restricted.
\<close>

fun suppliesPaidAt :: "db \<Rightarrow> invoice_op \<Rightarrow> bool" where
  "suppliesPaidAt s (UpdateInvoiceStatus invoiceId updateDto) =
     (us_status updateDto = PAID \<longrightarrow>
        (case us_paidAt updateDto of
           Value t \<Rightarrow> True
         | Null \<Rightarrow> False
         | Undefined \<Rightarrow> list_all (\<lambda>i. i_id i = invoiceId \<longrightarrow> i_paidAt i \<noteq> None) (invoices s)))"
| "suppliesPaidAt s x = True"

fun allSupplyPaidAt :: "timezone \<Rightarrow> db \<Rightarrow> invoice_op list \<Rightarrow> bool" where
  "allSupplyPaidAt tz s [] = True"
| "allSupplyPaidAt tz s (x # xs) = (suppliesPaidAt s x \<and> allSupplyPaidAt tz (perform tz x s) xs)"

text \<open>
  Calendar-month addition as the specification words it: the day of the month is kept
  unless the target month is shorter, in which case the result is the last day of that
  month (the day before the first day of the month after it).
\<close>

definition addMonthClamped :: "timezone \<Rightarrow> instant \<Rightarrow> instant" where
  "addMonthClamped tz t =
     (let l = LocalTime tz t;
          first = MakeDay (YearFromTime l) (MonthFromTime l + 1) 1;
          afterwards = MakeDay (YearFromTime l) (MonthFromTime l + 2) 1;
          wanted = first + DateFromTime l - 1
      in UTC tz (MakeDate (if wanted < afterwards then wanted else afterwards - 1)
                   (TimeWithinDay l)))"

text \<open>The number of days of month \<open>m\<close> (0 to 11) of the year \<open>y\<close>.\<close>

definition daysInMonth :: "int \<Rightarrow> int \<Rightarrow> int" where
  "daysInMonth y m =
     (if m = 1 then 28 + InLeapYear y
      else if m = 3 \<or> m = 5 \<or> m = 8 \<or> m = 10 then 30 else 31)"

section \<open>Sample states\<close>

text \<open>
  Two time zones: UTC, and the time kept in Berlin between 2023-10-29 and 2025-03-30,
  which is UTC+1 but for the summer time UTC+2 from 2024-03-31 01:00 UTC to
  2024-10-27 01:00 UTC (on the local clock from 03:00 on the first day to 03:00 on the
  second).
\<close>

definition utcZone :: timezone where
  "utcZone = \<lparr>offsetAt = (\<lambda>t. 0), offsetOfLocal = (\<lambda>t. 0)\<rparr>"

definition berlin2024 :: timezone where
  "berlin2024 =
     \<lparr>offsetAt = (\<lambda>t. if 1711846800000 \<le> t \<and> t < 1729990800000 then 7200000 else 3600000),
      offsetOfLocal =
        (\<lambda>t. if 1711854000000 \<le> t \<and> t < 1729998000000 then 7200000 else 3600000)\<rparr>"

definition newCustomerDb :: "instant \<Rightarrow> db" where
  "newCustomerDb created =
     \<lparr>tiers = [\<lparr>t_id = 3, t_name = ''PRO'', t_price = 9900, t_rateLimit = 10000\<rparr>],
      customers = [\<lparr>c_id = 1, c_name = ''Test Customer'', c_email = ''test@example.com'',
                    c_tierId = 3, c_isActive = True, c_createdAt = created\<rparr>],
      usageHistory = [], invoices = [], lineItems = [], invoiceSeq = 0, lineItemSeq = 0\<rparr>"

text \<open>
  The customer of scenario S5 (created 2024-01-15) with three usage records, two of them
  in the period from 2024-01-15 to 2024-02-15; and a call of \<open>generateInvoice\<close> for
  that period on 2024-02-10 10:00.
\<close>

definition usageDb :: db where
  "usageDb = (newCustomerDb 1705276800000)
     \<lparr>usageHistory := [\<lparr>uh_id = 1, uh_customerId = 1, uh_timestamp = 1705276800000\<rparr>,
                        \<lparr>uh_id = 2, uh_customerId = 1, uh_timestamp = 1707000000000\<rparr>,
                        \<lparr>uh_id = 3, uh_customerId = 1, uh_timestamp = 1707955200000\<rparr>]\<rparr>"

definition februaryCall :: CreateInvoiceDto where
  "februaryCall = \<lparr>dto_customerId = 1, dto_periodStart = 1705276800000,
                     dto_periodEnd = 1707955200000\<rparr>"

definition atOnce :: "instant \<Rightarrow> gen_clock" where
  "atOnce t = \<lparr>atNumber = t, atDueDate = t, atInvoiceRow = t, atLineItems = t\<rparr>"

definition pendingResponse :: InvoiceResponseDto where
  "pendingResponse =
     \<lparr>r_id = 1, r_invoiceNumber = ''INV-2024-02-001'', r_customerId = 1,
      r_customerName = ''Test Customer'', r_customerEmail = ''test@example.com'',
      r_periodStart = 1705276800000, r_periodEnd = 1707955200000,
      r_totalUsage = 2, r_amount = 9900, r_status = PENDING,
      r_dueDate = 1708164000000, r_paidAt = None,
      r_stripeInvoiceId = None, r_createdAt = 1707559200000,
      r_lineItems =
        [\<lparr>ri_id = 1, ri_description = ''PRO Plan - January 2024'',
           ri_quantity = 1, ri_unitPrice = 9900, ri_amount = 9900,
           ri_createdAt = 1707559200000\<rparr>,
         \<lparr>ri_id = 2, ri_description = ''API Calls: 2 requests'',
           ri_quantity = 2, ri_unitPrice = 0, ri_amount = 0,
           ri_createdAt = 1707559200000\<rparr>]\<rparr>"

text \<open>The store after that call: one pending invoice with its two line items.\<close>

definition pendingDb :: db where
  "pendingDb = usageDb
     \<lparr>invoices := [\<lparr>i_id = 1, i_invoiceNumber = ''INV-2024-02-001'', i_customerId = 1,
                     i_periodStart = 1705276800000, i_periodEnd = 1707955200000,
                     i_totalUsage = 2, i_amount = 9900, i_status = PENDING,
                     i_dueDate = 1708164000000, i_paidAt = None,
                     i_stripeInvoiceId = None, i_createdAt = 1707559200000\<rparr>],
      lineItems := [\<lparr>li_id = 1, li_invoiceId = 1,
                      li_description = ''PRO Plan - January 2024'', li_quantity = 1,
                      li_unitPrice = 9900, li_amount = 9900, li_createdAt = 1707559200000\<rparr>,
                    \<lparr>li_id = 2, li_invoiceId = 1,
                      li_description = ''API Calls: 2 requests'', li_quantity = 2,
                      li_unitPrice = 0, li_amount = 0, li_createdAt = 1707559200000\<rparr>],
      invoiceSeq := 1, lineItemSeq := 2\<rparr>"

text \<open>The pending invoice marked as paid on 2024-02-10 at 10:01:40.\<close>

definition paidResponse :: InvoiceResponseDto where
  "paidResponse = pendingResponse\<lparr>r_status := PAID, r_paidAt := Some 1707559300000\<rparr>"

definition paidDb :: db where
  "paidDb = pendingDb
     \<lparr>invoices := map (\<lambda>i. i\<lparr>i_status := PAID, i_paidAt := Some 1707559300000\<rparr>)
                    (invoices pendingDb)\<rparr>"

text \<open>
  A store with two tiers and two customers. The customer with id 1, created on
  2024-01-15 at 00:00 UTC, is the second row and has the second tier; the other
  customer has one invoice, for January 2024. Of the usage records two are those of
  customer 1 between 2024-01-15 and 2024-02-15, one is the other customer's and one lies
  at 2024-02-15 00:00 UTC.
\<close>

definition twoCustomerDb :: db where
  "twoCustomerDb =
     \<lparr>tiers = [\<lparr>t_id = 1, t_name = ''FREE'', t_price = 0, t_rateLimit = 100\<rparr>,
               \<lparr>t_id = 3, t_name = ''PRO'', t_price = 9900, t_rateLimit = 10000\<rparr>],
      customers = [\<lparr>c_id = 2, c_name = ''Other Customer'', c_email = ''other@example.com'',
                    c_tierId = 1, c_isActive = True, c_createdAt = 1699185600000\<rparr>,
                   \<lparr>c_id = 1, c_name = ''Test Customer'', c_email = ''test@example.com'',
                    c_tierId = 3, c_isActive = True, c_createdAt = 1705276800000\<rparr>],
      usageHistory = [\<lparr>uh_id = 1, uh_customerId = 1, uh_timestamp = 1705276800000\<rparr>,
                      \<lparr>uh_id = 2, uh_customerId = 2, uh_timestamp = 1707000000000\<rparr>,
                      \<lparr>uh_id = 3, uh_customerId = 1, uh_timestamp = 1707000000000\<rparr>,
                      \<lparr>uh_id = 4, uh_customerId = 1, uh_timestamp = 1707955200000\<rparr>],
      invoices = [\<lparr>i_id = 1, i_invoiceNumber = ''INV-2024-02-001'', i_customerId = 2,
                   i_periodStart = 1704067200000, i_periodEnd = 1706745600000,
                   i_totalUsage = 0, i_amount = 0, i_status = PENDING,
                   i_dueDate = 1707728400000, i_paidAt = None,
                   i_stripeInvoiceId = None, i_createdAt = 1707123600000\<rparr>],
      lineItems = [\<lparr>li_id = 1, li_invoiceId = 1,
                    li_description = ''FREE Plan - January 2024'', li_quantity = 1,
                    li_unitPrice = 0, li_amount = 0, li_createdAt = 1707123600000\<rparr>,
                   \<lparr>li_id = 2, li_invoiceId = 1,
                    li_description = ''API Calls: 0 requests'', li_quantity = 0,
                    li_unitPrice = 0, li_amount = 0, li_createdAt = 1707123600000\<rparr>],
      invoiceSeq = 1, lineItemSeq = 2\<rparr>"

text \<open>
  The answer of \<open>generateInvoice\<close> for customer 1 and that period in this store, called
  on 2024-02-10 at 10:00 UTC, and the store after the call.
\<close>

definition secondResponse :: InvoiceResponseDto where
  "secondResponse =
     \<lparr>r_id = 2, r_invoiceNumber = ''INV-2024-02-002'', r_customerId = 1,
      r_customerName = ''Test Customer'', r_customerEmail = ''test@example.com'',
      r_periodStart = 1705276800000, r_periodEnd = 1707955200000,
      r_totalUsage = 2, r_amount = 9900, r_status = PENDING,
      r_dueDate = 1708164000000, r_paidAt = None,
      r_stripeInvoiceId = None, r_createdAt = 1707559200000,
      r_lineItems =
        [\<lparr>ri_id = 3, ri_description = ''PRO Plan - January 2024'',
           ri_quantity = 1, ri_unitPrice = 9900, ri_amount = 9900,
           ri_createdAt = 1707559200000\<rparr>,
         \<lparr>ri_id = 4, ri_description = ''API Calls: 2 requests'',
           ri_quantity = 2, ri_unitPrice = 0, ri_amount = 0,
           ri_createdAt = 1707559200000\<rparr>]\<rparr>"

definition secondDb :: db where
  "secondDb = twoCustomerDb
     \<lparr>invoices := invoices twoCustomerDb @
                    [\<lparr>i_id = 2, i_invoiceNumber = ''INV-2024-02-002'', i_customerId = 1,
                      i_periodStart = 1705276800000, i_periodEnd = 1707955200000,
                      i_totalUsage = 2, i_amount = 9900, i_status = PENDING,
                      i_dueDate = 1708164000000, i_paidAt = None,
                      i_stripeInvoiceId = None, i_createdAt = 1707559200000\<rparr>],
      lineItems := lineItems twoCustomerDb @
                    [\<lparr>li_id = 3, li_invoiceId = 2,
                       li_description = ''PRO Plan - January 2024'', li_quantity = 1,
                       li_unitPrice = 9900, li_amount = 9900, li_createdAt = 1707559200000\<rparr>,
                     \<lparr>li_id = 4, li_invoiceId = 2,
                       li_description = ''API Calls: 2 requests'', li_quantity = 2,
                       li_unitPrice = 0, li_amount = 0, li_createdAt = 1707559200000\<rparr>],
      invoiceSeq := 2, lineItemSeq := 4\<rparr>"

text \<open>
  The customer of scenario S5 with one invoice, for the period given.
\<close>

definition invoicedDb :: "instant \<Rightarrow> instant \<Rightarrow> db" where
  "invoicedDb pStart pEnd = (newCustomerDb 1705276800000)
     \<lparr>invoices := [\<lparr>i_id = 1, i_invoiceNumber = ''INV-2024-03-001'', i_customerId = 1,
                     i_periodStart = pStart, i_periodEnd = pEnd,
                     i_totalUsage = 0, i_amount = 9900, i_status = PENDING,
                     i_dueDate = pEnd + 7 * msPerDay, i_paidAt = None,
                     i_stripeInvoiceId = None, i_createdAt = pEnd\<rparr>],
      invoiceSeq := 1\<rparr>"

text \<open>An empty Redis in which the coming calls fare as the list says.\<close>

definition emptyWorld :: "bool list \<Rightarrow> world" where
  "emptyWorld fs = \<lparr>hashes = (\<lambda>k. emptyHash), lists = (\<lambda>k. []), faults = fs, console = []\<rparr>"

definition sampleUsage :: UsageLog where
  "sampleUsage = \<lparr>u_customerId = ''7'', u_apiKey = ''k'', u_apiKeyId = 1,
     u_endpoint = ''/api/get'', u_method = ''GET'', u_statusCode = ''200'', u_responseTime = 150,
     u_timestamp = 1704153660000\<rparr>"

text \<open>A world in which Redis holds one rate hash and nothing else, and no call fails.\<close>

definition oneHash :: "string \<Rightarrow> rate_hash \<Rightarrow> world" where
  "oneHash key h =
     \<lparr>hashes = (\<lambda>k. emptyHash)(key := h), lists = (\<lambda>k. []), faults = [], console = []\<rparr>"

section \<open>Properties of the calendar\<close>

text \<open>
  \<open>YearFromDay\<close> gives the year of ECMA-262: the year \<open>y\<close> whose first day is not
  after the day and whose successor's first day is. The month number is always one of
  0 to 11.
\<close>

lemma div_lower: "(0::int) < b \<Longrightarrow> b * (a div b) \<le> a"
proof -
  assume "0 < b"
  then have "0 \<le> a mod b" by simp
  moreover have "a = b * (a div b) + a mod b" by simp
  ultimately show ?thesis by linarith
qed

lemma div_upper: "(0::int) < b \<Longrightarrow> a < b * (a div b) + b"
proof -
  assume "0 < b"
  then have "a mod b < b" by simp
  moreover have "a = b * (a div b) + a mod b" by simp
  ultimately show ?thesis by linarith
qed

lemma DayFromYear_bounds:
  "146097 * q - 506 \<le> 400 * DayFromYear (1970 + q)"
  "400 * DayFromYear (1970 + q) \<le> 146097 * q + 589"
proof -
  define A where "A = (q + 1) div 4"
  define B where "B = (q + 69) div 100"
  define C where "C = (q + 369) div 400"
  have a1: "4 * A \<le> q + 1" unfolding A_def by (rule div_lower) simp
  have a2: "q + 1 < 4 * A + 4" unfolding A_def by (rule div_upper) simp
  have b1: "100 * B \<le> q + 69" unfolding B_def by (rule div_lower) simp
  have b2: "q + 69 < 100 * B + 100" unfolding B_def by (rule div_upper) simp
  have c1: "400 * C \<le> q + 369" unfolding C_def by (rule div_lower) simp
  have c2: "q + 369 < 400 * C + 400" unfolding C_def by (rule div_upper) simp
  have D: "DayFromYear (1970 + q) = 365 * q + A - B + C"
    by (simp add: DayFromYear_def A_def B_def C_def add.commute)
  show "146097 * q - 506 \<le> 400 * DayFromYear (1970 + q)"
    unfolding D using a2 b1 c2 by (simp add: algebra_simps)
  show "400 * DayFromYear (1970 + q) \<le> 146097 * q + 589"
    unfolding D using a1 b2 c1 by (simp add: algebra_simps)
qed

lemma YearFromDay_holds:
  "DayFromYear (YearFromDay d) \<le> d \<and> d < DayFromYear (YearFromDay d + 1)"
proof -
  define q where "q = (d * 400) div 146097"
  define y where "y = 1970 + q"
  have q1: "146097 * q \<le> 400 * d"
    using div_lower [of 146097 "d * 400"] by (simp add: q_def)
  have q2: "400 * d < 146097 * q + 146097"
    using div_upper [of 146097 "d * 400"] by (simp add: q_def)
  have m1: "400 * DayFromYear (y - 1) \<le> 146097 * q - 145508"
    using DayFromYear_bounds(2) [of "q - 1"] by (simp add: y_def algebra_simps)
  have l0: "146097 * q - 506 \<le> 400 * DayFromYear y"
    using DayFromYear_bounds(1) [of q] by (simp add: y_def)
  have u0: "400 * DayFromYear y \<le> 146097 * q + 589"
    using DayFromYear_bounds(2) [of q] by (simp add: y_def)
  have l1: "146097 * q + 145591 \<le> 400 * DayFromYear (y + 1)"
    using DayFromYear_bounds(1) [of "q + 1"] by (simp add: y_def algebra_simps)
  have u1: "400 * DayFromYear (y + 1) \<le> 146097 * q + 146686"
    using DayFromYear_bounds(2) [of "q + 1"] by (simp add: y_def algebra_simps)
  have l2: "146097 * q + 291688 \<le> 400 * DayFromYear (y + 2)"
    using DayFromYear_bounds(1) [of "q + 2"] by (simp add: y_def algebra_simps)
  have up: "DayFromYear y \<le> d + 1" using q1 u0 by linarith
  have lo: "d - 1 \<le> DayFromYear (y + 1)" using q2 l1 by linarith
  have s0: "DayFromYear (y - 1) + 363 \<le> DayFromYear y" using m1 l0 by linarith
  have s2: "DayFromYear (y + 1) + 363 \<le> DayFromYear (y + 2)" using u1 l2 by linarith
  have yfd: "YearFromDay d =
    (if d < DayFromYear y then y - 1 else if DayFromYear (y + 1) \<le> d then y + 1 else y)"
    by (simp add: YearFromDay_def y_def q_def Let_def)
  show ?thesis
  proof (cases "d < DayFromYear y")
    case True
    then show ?thesis using yfd up s0 by simp
  next
    case False
    show ?thesis
    proof (cases "DayFromYear (y + 1) \<le> d")
      case True
      have e: "y + 1 + 1 = y + 2" by simp
      have s2': "DayFromYear (y + 1) + 363 \<le> DayFromYear (y + 1 + 1)"
        unfolding e by (rule s2)
      have "YearFromDay d = y + 1" using yfd True False by simp
      then show ?thesis using True lo s2' by simp
    next
      case False
      with \<open>\<not> d < DayFromYear y\<close> show ?thesis using yfd by simp
    qed
  qed
qed

lemma MonthFromTime_range: "0 \<le> MonthFromTime t \<and> MonthFromTime t \<le> 11"
  by (simp add: MonthFromTime_def Let_def)

section \<open>Properties of the rate limiter\<close>

lemma setHours24_next_midnight:
  "setHours24 t mod msPerDay = 0 \<and> t < setHours24 t \<and> setHours24 t \<le> t + msPerDay"
proof -
  have m: "t = (t div 86400000) * 86400000 + t mod 86400000" by simp
  have lo: "0 \<le> t mod 86400000" and hi: "t mod 86400000 < 86400000" by simp_all
  have eq: "setHours24 t = (t div 86400000) * 86400000 + 86400000"
    by (simp add: setHours24_def Day_def msPerDay_def)
  have "setHours24 t mod msPerDay = 0"
    unfolding eq msPerDay_def by simp
  moreover have "t < setHours24 t" using m hi unfolding eq by linarith
  moreover have "setHours24 t \<le> t + msPerDay" using m lo unfolding eq msPerDay_def by linarith
  ultimately show ?thesis by simp
qed

lemma rate_hash_overwrite:
  "(h::rate_hash)\<lparr>h_count := a, h_resetAt := b\<rparr> = \<lparr>h_count = a, h_resetAt = b\<rparr>"
  by (cases h) simp

text \<open>
  C5. When the Redis call of the invocation succeeds and the stored hash has a
  \<open>resetAt\<close> later than now and a count \<open>c \<ge> quota\<close>, \<open>checkAndIncrement\<close>
  answers denied with \<open>remaining = 0\<close> and the stored \<open>resetAt\<close>, and nothing in the
  store is changed: no hash (so neither \<open>count\<close> nor \<open>resetAt\<close> of this customer) and
  no list.
\<close>

theorem checkAndIncrement_denied:
  assumes "callsSucceed 1 s"
    and "h_resetAt (hashes s (''rate:limit:'' @ customerId)) = Val r" and "now < r"
    and "h_count (hashes s (''rate:limit:'' @ customerId)) = Val c" and "quota \<le> c"
  shows "checkAndIncrement now now2 customerId quota s =
           (Inr \<lparr>allowed = False, remaining = Some 0, resetAt = Stored (Val r)\<rparr>,
            s\<lparr>faults := drop 1 (faults s)\<rparr>)"
proof (cases "faults s")
  case Nil
  with assms show ?thesis
    by (simp add: checkAndIncrement_def andThen_def hgetAll_def redisCall_def ret_def
        noFields_def resetBefore_def parseCount_def)
next
  case (Cons f fs)
  with assms show ?thesis
    by (simp add: checkAndIncrement_def andThen_def hgetAll_def redisCall_def ret_def
        noFields_def resetBefore_def parseCount_def callsSucceed_def)
qed

theorem checkAndIncrement_denied_witness:
  "checkAndIncrement 1704153660000 1704153660000 ''7'' 100
     (oneHash ''rate:limit:7'' \<lparr>h_count = Val 100, h_resetAt = Val 1704240000000\<rparr>) =
   (Inr \<lparr>allowed = False, remaining = Some 0, resetAt = Stored (Val 1704240000000)\<rparr>,
    oneHash ''rate:limit:7'' \<lparr>h_count = Val 100, h_resetAt = Val 1704240000000\<rparr>)"
  using checkAndIncrement_denied [of
      "oneHash ''rate:limit:7'' \<lparr>h_count = Val 100, h_resetAt = Val 1704240000000\<rparr>"
      "''7''" 1704240000000 1704153660000 100 100 1704153660000]
  by (simp add: oneHash_def callsSucceed_def)

text \<open>
  C3, as the code has it. When the three Redis calls of the invocation succeed and the
  stored hash has no fields (the key is absent), or its stored \<open>resetAt\<close> is strictly
  earlier than now, \<open>checkAndIncrement\<close> stores \<open>count = 1\<close> and \<open>resetAt\<close> = the next
  local midnight (the first instant after the clock reading \<open>now2\<close> of the reset that
  is a multiple of a day on the local clock), and answers allowed with
  \<open>remaining = quota - 1\<close>.
\<close>

theorem checkAndIncrement_reset:
  assumes "callsSucceed 3 s"
    and "noFields (hashes s (''rate:limit:'' @ customerId)) \<or>
         (\<exists>r. h_resetAt (hashes s (''rate:limit:'' @ customerId)) = Val r \<and> r < now)"
  shows "checkAndIncrement now now2 customerId quota s =
           (Inr \<lparr>allowed = True, remaining = Some (quota - 1),
                 resetAt = DateString (Day (setHours24 now2))\<rparr>,
            s\<lparr>faults := drop 3 (faults s),
              hashes := (hashes s)(''rate:limit:'' @ customerId :=
                 \<lparr>h_count = Val 1, h_resetAt = Val (setHours24 now2)\<rparr>)\<rparr>)
         \<and> setHours24 now2 mod msPerDay = 0
         \<and> now2 < setHours24 now2 \<and> setHours24 now2 \<le> now2 + msPerDay"
proof -
  note defs = checkAndIncrement_def andThen_def hgetAll_def hset_count_def
    hset_resetAt_def redisCall_def ret_def resetBefore_def rate_hash_overwrite callsSucceed_def
  have "checkAndIncrement now now2 customerId quota s =
           (Inr \<lparr>allowed = True, remaining = Some (quota - 1),
                 resetAt = DateString (Day (setHours24 now2))\<rparr>,
            s\<lparr>faults := drop 3 (faults s),
              hashes := (hashes s)(''rate:limit:'' @ customerId :=
                 \<lparr>h_count = Val 1, h_resetAt = Val (setHours24 now2)\<rparr>)\<rparr>)"
  proof (cases "faults s")
    case Nil
    with assms show ?thesis by (auto simp add: defs)
  next
    case c1: (Cons a fs1)
    show ?thesis
    proof (cases fs1)
      case Nil
      with c1 assms show ?thesis by (auto simp add: defs)
    next
      case c2: (Cons b fs2)
      show ?thesis
      proof (cases fs2)
        case Nil
        with c1 c2 assms show ?thesis by (auto simp add: defs)
      next
        case (Cons c fs3)
        with c1 c2 assms show ?thesis by (auto simp add: defs)
      qed
    qed
  qed
  then show ?thesis
    using setHours24_next_midnight [of now2] by simp
qed

text \<open>
  Scenario S3: counter \<open>{count: 100, resetAt: 2024-01-01T00:00}\<close>, now 2024-01-02T00:01,
  quota 100. The counter becomes \<open>{count: 1, resetAt: 2024-01-03T00:00}\<close> and 99 remain.
\<close>

theorem checkAndIncrement_reset_witness:
  "checkAndIncrement 1704153660000 1704153660000 ''7'' 100
     (oneHash ''rate:limit:7'' \<lparr>h_count = Val 100, h_resetAt = Val 1704067200000\<rparr>) =
   (Inr \<lparr>allowed = True, remaining = Some 99, resetAt = DateString 19725\<rparr>,
    oneHash ''rate:limit:7'' \<lparr>h_count = Val 1, h_resetAt = Val 1704240000000\<rparr>)"
  using checkAndIncrement_reset [of
      "oneHash ''rate:limit:7'' \<lparr>h_count = Val 100, h_resetAt = Val 1704067200000\<rparr>"
      "''7''" 1704153660000 1704153660000 100]
  by (simp add: oneHash_def setHours24_def Day_def msPerDay_def callsSucceed_def)

text \<open>
  The claim C3 as stated lets the reset happen already when \<open>resetAt \<le> now\<close>. At
  \<open>resetAt = now\<close> the code does not reset: with an exhausted counter it denies.
\<close>

theorem checkAndIncrement_reset_counterexample:
  "(1704240000000::int) \<le> 1704240000000 \<and>
   checkAndIncrement 1704240000000 1704240000000 ''7'' 100
     (oneHash ''rate:limit:7'' \<lparr>h_count = Val 100, h_resetAt = Val 1704240000000\<rparr>) =
   (Inr \<lparr>allowed = False, remaining = Some 0, resetAt = Stored (Val 1704240000000)\<rparr>,
    oneHash ''rate:limit:7'' \<lparr>h_count = Val 100, h_resetAt = Val 1704240000000\<rparr>)"
  by (simp add: checkAndIncrement_def andThen_def hgetAll_def redisCall_def ret_def
      noFields_def resetBefore_def parseCount_def oneHash_def)

text \<open>
  C4. A quota of 0 is not special to \<open>checkAndIncrement\<close>: once the day's hash exists
  with a count of 1 (after the first request of the day), a request with quota 0 is
  denied, since \<open>1 \<ge> 0\<close>.
\<close>

theorem checkAndIncrement_quota_zero_denied:
  "fst (checkAndIncrement 1704153660000 1704153660000 ''7'' 0
     (oneHash ''rate:limit:7'' \<lparr>h_count = Val 1, h_resetAt = Val 1704240000000\<rparr>)) =
   Inr \<lparr>allowed = False, remaining = Some 0, resetAt = Stored (Val 1704240000000)\<rparr>"
  by (simp add: checkAndIncrement_def andThen_def hgetAll_def redisCall_def ret_def
      noFields_def resetBefore_def parseCount_def oneHash_def)

section \<open>Properties of usage tracking\<close>

lemma addUsageLog_try_throws:
  assumes "True \<in> set (take 4 (faults s)) \<or> (\<exists>e. stringify usage = Inl e)"
  shows "\<exists>e s1. addUsageLog_try stringify usage s = (Inl e, s1) \<and> console s1 = console s"
proof (cases "stringify usage")
  case (Inl e)
  then show ?thesis
    by (simp add: addUsageLog_try_def andThen_def evaluate_def)
next
  case (Inr json)
  note defs = addUsageLog_try_def andThen_def evaluate_def lpush_def ltrim0_def
    redisCall_def consoleWrite_def
  from Inr assms have hit: "True \<in> set (take 4 (faults s))" by simp
  show ?thesis
  proof (cases "faults s")
    case Nil
    with hit show ?thesis by simp
  next
    case c1: (Cons a fs1)
    show ?thesis
    proof (cases fs1)
      case Nil
      with c1 hit Inr show ?thesis by (auto simp add: defs)
    next
      case c2: (Cons b fs2)
      show ?thesis
      proof (cases fs2)
        case Nil
        with c1 c2 hit Inr show ?thesis by (auto simp add: defs)
      next
        case c3: (Cons c fs3)
        show ?thesis
        proof (cases fs3)
          case Nil
          with c1 c2 c3 hit Inr show ?thesis by (auto simp add: defs)
        next
          case (Cons d fs4)
          with c1 c2 c3 hit Inr show ?thesis by (auto simp add: defs)
        qed
      qed
    qed
  qed
qed

text \<open>
  C10. \<open>addUsageLog\<close> returns normally for every usage record, every state of Redis
  and every fate of the Redis calls. When one of its four Redis calls (push, trim,
  push, trim) fails, or \<open>JSON.stringify\<close> throws, exactly one line
  \<open>Failed to track usage:\<close> with the error is written to the console.
\<close>

theorem addUsageLog_total:
  "fst (addUsageLog stringify usage s) = Inr () \<and>
   (True \<in> set (take 4 (faults s)) \<or> (\<exists>e. stringify usage = Inl e) \<longrightarrow>
      (\<exists>e. console (snd (addUsageLog stringify usage s)) =
             console s @ [ErrorLine ''Failed to track usage:'' e]))"
proof
  show "fst (addUsageLog stringify usage s) = Inr ()"
    by (simp add: addUsageLog_def tryCatch_def consoleWrite_def split: prod.splits sum.splits)
next
  show "True \<in> set (take 4 (faults s)) \<or> (\<exists>e. stringify usage = Inl e) \<longrightarrow>
      (\<exists>e. console (snd (addUsageLog stringify usage s)) =
             console s @ [ErrorLine ''Failed to track usage:'' e])"
  proof
    assume "True \<in> set (take 4 (faults s)) \<or> (\<exists>e. stringify usage = Inl e)"
    then obtain e s1 where "addUsageLog_try stringify usage s = (Inl e, s1)"
      and "console s1 = console s"
      using addUsageLog_try_throws by blast
    then have "console (snd (addUsageLog stringify usage s)) =
             console s @ [ErrorLine ''Failed to track usage:'' e]"
      by (simp add: addUsageLog_def tryCatch_def consoleWrite_def)
    then show "\<exists>e. console (snd (addUsageLog stringify usage s)) =
             console s @ [ErrorLine ''Failed to track usage:'' e]" ..
  qed
qed

text \<open>
  The push to the customer's list succeeds and its trim fails: the record stays in the
  customer's list, the global list is not written, the error is logged and the caller
  gets a normal return.
\<close>

theorem addUsageLog_total_witness:
  "True \<in> set (take 4 (faults (emptyWorld [False, True]))) \<and>
   addUsageLog (\<lambda>u. Inr ''{}'') sampleUsage (emptyWorld [False, True]) =
     (Inr (), \<lparr>hashes = (\<lambda>k. emptyHash), lists = (\<lambda>k. [])(''usage:logs:7'' := [''{}'']),
        faults = [], console = [ErrorLine ''Failed to track usage:'' RedisError]\<rparr>)"
  using addUsageLog_total [of "\<lambda>u. Inr ''{}''" sampleUsage "emptyWorld [False, True]"]
  by (simp add: addUsageLog_def addUsageLog_try_def tryCatch_def andThen_def evaluate_def
      lpush_def ltrim0_def redisCall_def consoleWrite_def emptyWorld_def sampleUsage_def)

section \<open>Properties of the proxy forwarder\<close>

lemma urlPath_not_empty: "urlPath url \<noteq> []"
  by (simp add: urlPath_def Let_def)

text \<open>
  C1, as the code has it. For every request whose method is forwarded (GET, POST, PUT,
  DELETE), the target URL of the call is the configured \<open>api.targetUrl\<close> followed by
  the request URL without its leading \<open>/api\<close> (path and query string; \<open>/\<close> when
  nothing is left). The developer record attached to the request has no influence on
  the call nor on the answer of \<open>forwardRequests\<close>, and the literal default in
  \<open>forwardRequests\<close> is never taken.
\<close>

theorem forwardRequests_target:
  assumes "req_method req \<in> {''GET'', ''POST'', ''PUT'', ''DELETE''}"
  shows "(\<exists>call. outgoing (Some base) req = Some call
           \<and> call_url call = base @ urlPath (req_url req)
           \<and> outgoing (Some base) (req\<lparr>req_developer := d\<rparr>) = Some call)
         \<and> forwardRequests (Some base) upstream (req\<lparr>req_developer := d\<rparr>) =
             forwardRequests (Some base) upstream req"
  using assms
  by (auto simp add: forwardRequests_def outgoing_def targetUrl_def Let_def urlPath_not_empty)

lemma cleanHeaders_sample:
  "cleanHeaders [(''Host'', ''gateway''), (''accept'', ''*/*'')] = [(''accept'', ''*/*'')]"
  by code_simp

theorem forwardRequests_target_witness:
  "req_method sampleRequest \<in> {''GET'', ''POST'', ''PUT'', ''DELETE''} \<and>
   outgoing (Some ''https://httpbin.org'') sampleRequest =
     Some (HttpGet ''https://httpbin.org/get?x=1'' [(''accept'', ''*/*'')] 30000)"
  using forwardRequests_target [of sampleRequest "''https://httpbin.org''" "req_developer sampleRequest"]
  by (simp add: sampleRequest_def outgoing_def targetUrl_def urlPath_def cleanHeaders_sample
      Let_def)

text \<open>
  The claim C1 as stated takes the base URL from the developer record. For a customer
  of the developer at \<open>https://jsonplaceholder.typicode.com\<close>, with the gateway
  configured for \<open>https://httpbin.org\<close>, the call goes to the configured URL.
\<close>

theorem forwardRequests_target_counterexample:
  "d_apiUrl (req_developer sampleRequest) = ''https://jsonplaceholder.typicode.com'' \<and>
   map_option call_url (outgoing (Some ''https://httpbin.org'') sampleRequest) =
     Some ''https://httpbin.org/get?x=1'' \<and>
   map_option call_url (outgoing (Some ''https://httpbin.org'') sampleRequest) \<noteq>
     Some (d_apiUrl (req_developer sampleRequest) @ ''/get'' @ ''?x=1'')"
  by (simp add: sampleRequest_def outgoing_def targetUrl_def urlPath_def Let_def)

section \<open>Properties of the billing period\<close>

text \<open>
  What \<open>setMonth(getMonth() + 1)\<close> does to a date: the year of a day begins 365 or 366
  days before the next, and the day made from the local year, the month after the local
  month and the local day of the month lies the length of the local month after the
  local day. So the local date moves on by as many days as its month has, at the same
  local time of day; a day of the month that the next month does not have is not cut
  down to that month's last day.
\<close>

lemma div_next:
  fixes x b :: int
  assumes "0 < b"
  shows "(x + 1) div b = x div b + (if (x + 1) mod b = 0 then 1 else 0)"
proof -
  have x: "x = b * (x div b) + x mod b" by simp
  have lo: "0 \<le> x mod b" and hi: "x mod b < b" using assms by simp_all
  show ?thesis
  proof (cases "x mod b + 1 < b")
    case True
    have e: "x + 1 = b * (x div b) + (x mod b + 1)" using x by linarith
    from lo have lo': "0 \<le> x mod b + 1" by simp
    have "(x + 1) div b = x div b"
      using e lo' True by (rule int_div_pos_eq)
    moreover have "(x + 1) mod b = x mod b + 1"
      using e lo' True by (rule int_mod_pos_eq)
    ultimately show ?thesis using lo by simp
  next
    case False
    with hi have r: "x mod b + 1 = b" by linarith
    have "b * (x div b + 1) = b * (x div b) + b" by (simp add: algebra_simps)
    with x r have e: "x + 1 = b * (x div b + 1) + 0" by linarith
    have zero: "(0::int) \<le> 0" by simp
    have "(x + 1) div b = x div b + 1"
      using e zero assms by (rule int_div_pos_eq)
    moreover have "(x + 1) mod b = 0"
      using e zero assms by (rule int_mod_pos_eq)
    ultimately show ?thesis by simp
  qed
qed

lemma DayFromYear_next: "DayFromYear (y + 1) = DayFromYear y + 365 + InLeapYear y"
proof -
  have a: "(y + 1 - 1969) div 4 = (y - 1969) div 4 + (if y mod 4 = 0 then 1 else 0)"
    using div_next [of 4 "y - 1969"] mod_mult_self1 [of y "-492" 4] by simp
  have b: "(y + 1 - 1901) div 100 = (y - 1901) div 100 + (if y mod 100 = 0 then 1 else 0)"
    using div_next [of 100 "y - 1901"] mod_mult_self1 [of y "-19" 100] by simp
  have c: "(y + 1 - 1601) div 400 = (y - 1601) div 400 + (if y mod 400 = 0 then 1 else 0)"
    using div_next [of 400 "y - 1601"] mod_mult_self1 [of y "-4" 400] by simp
  have "(100::int) dvd 400" and "(4::int) dvd 100"
    by simp_all
  then have d: "y mod 400 = 0 \<Longrightarrow> y mod 100 = 0" "y mod 100 = 0 \<Longrightarrow> y mod 4 = 0"
    using dvd_trans [of 100 400 y] dvd_trans [of 4 100 y] by (simp_all add: mod_eq_0_iff_dvd)
  show ?thesis
    unfolding DayFromYear_def InLeapYear_def a b c using d by auto
qed

lemma MakeDay_next_month:
  "MakeDay (YearFromTime l) (MonthFromTime l + 1) (DateFromTime l) =
     Day l + daysInMonth (YearFromTime l) (MonthFromTime l)"
proof -
  define y where "y = YearFromTime l"
  define m where "m = MonthFromTime l"
  have range: "0 \<le> m \<and> m \<le> 11"
    unfolding m_def by (rule MonthFromTime_range)
  have date: "DateFromTime l = Day l - DayFromYear y - monthStart (InLeapYear y) m + 1"
    by (simp add: DateFromTime_def DayWithinYear_def y_def m_def)
  from range have "m = 0 \<or> m = 1 \<or> m = 2 \<or> m = 3 \<or> m = 4 \<or> m = 5 \<or> m = 6
    \<or> m = 7 \<or> m = 8 \<or> m = 9 \<or> m = 10 \<or> m = 11"
    by arith
  then consider "m = 0" | "m = 1" | "m = 2" | "m = 3" | "m = 4" | "m = 5" | "m = 6"
    | "m = 7" | "m = 8" | "m = 9" | "m = 10" | "m = 11"
    by blast
  then have "MakeDay y (m + 1) (DateFromTime l) = Day l + daysInMonth y m"
  proof cases
    case 12
    then show ?thesis
      by (simp add: MakeDay_def date monthStart_def daysInMonth_def DayFromYear_next)
  qed (simp_all add: MakeDay_def date monthStart_def daysInMonth_def)
  then show ?thesis
    by (simp add: y_def m_def)
qed

lemma addMonth_month_length:
  "addMonth tz t =
     UTC tz (MakeDate (Day (LocalTime tz t) + daysInMonth (getFullYear tz t) (getMonth tz t))
               (TimeWithinDay (LocalTime tz t)))"
  by (simp add: addMonth_def setMonth_def getMonth_def getFullYear_def MakeDay_next_month)

text \<open>
  The loop of a customer without invoices breaks exactly when, \<open>k\<close> months after the
  start, the period that begins there holds \<open>now\<close> and no earlier start lies after
  \<open>now\<close>, with the iteration bound not reached.
\<close>

lemma periodLoop_new_customer:
  "periodLoop tz StartInFuture now ps it = Break a b n \<longleftrightarrow>
     (\<exists>k. n = it + k \<and> n < MAX_ITERATIONS \<and> (\<forall>j\<le>k. (addMonth tz ^^ j) ps \<le> now)
          \<and> now < (addMonth tz ^^ Suc k) ps \<and> a = (addMonth tz ^^ k) ps \<and> b = (addMonth tz ^^ Suc k) ps)"
proof (induction tz StartInFuture now ps it rule: periodLoop.induct)
  case (1 tz now ps it)
  let ?R = "\<lambda>ps it. (\<exists>k. n = it + k \<and> n < MAX_ITERATIONS \<and> (\<forall>j\<le>k. (addMonth tz ^^ j) ps \<le> now)
          \<and> now < (addMonth tz ^^ Suc k) ps \<and> a = (addMonth tz ^^ k) ps \<and> b = (addMonth tz ^^ Suc k) ps)"
  show ?case
  proof (cases "it < MAX_ITERATIONS")
    case False
    then show ?thesis by (subst periodLoop.simps) auto
  next
    case inRange: True
    show ?thesis
    proof (cases "ps \<le> now \<and> now < addMonth tz ps")
      case True
      have r: "?R ps it \<longleftrightarrow> (a = ps \<and> b = addMonth tz ps \<and> n = it)"
      proof
        assume "?R ps it"
        then obtain k where k: "n = it + k" "\<forall>j\<le>k. (addMonth tz ^^ j) ps \<le> now"
          "a = (addMonth tz ^^ k) ps" "b = (addMonth tz ^^ Suc k) ps" by blast
        have "k = 0"
        proof (rule ccontr)
          assume "k \<noteq> 0"
          then have "Suc 0 \<le> k" by simp
          with k(2) have "(addMonth tz ^^ Suc 0) ps \<le> now" by blast
          with True show False by simp
        qed
        with k show "a = ps \<and> b = addMonth tz ps \<and> n = it" by simp
      next
        assume "a = ps \<and> b = addMonth tz ps \<and> n = it"
        with True inRange show "?R ps it" by (intro exI [of _ 0]) simp
      qed
      have eq: "periodLoop tz StartInFuture now ps it = Break ps (addMonth tz ps) it"
        using True inRange by (subst periodLoop.simps) simp
      show ?thesis unfolding eq r by auto
    next
      case noWindow: False
      show ?thesis
      proof (cases "now < ps")
        case True
        then have "periodLoop tz StartInFuture now ps it = Threw"
          using noWindow inRange by (subst periodLoop.simps) (simp add: checkThrows_def)
        moreover have "\<not> ?R ps it"
        proof
          assume "?R ps it"
          then obtain k where "\<forall>j\<le>k. (addMonth tz ^^ j) ps \<le> now" by blast
          then have "(addMonth tz ^^ 0) ps \<le> now" by blast
          with True show False by simp
        qed
        ultimately show ?thesis by simp
      next
        case False
        with noWindow have le: "ps \<le> now" "addMonth tz ps \<le> now" by auto
        have step: "periodLoop tz StartInFuture now ps it =
                    periodLoop tz StartInFuture now (addMonth tz ps) (Suc it)"
          using noWindow inRange False by (subst periodLoop.simps) (simp add: checkThrows_def)
        have ih: "periodLoop tz StartInFuture now (addMonth tz ps) (Suc it) = Break a b n \<longleftrightarrow>
                  ?R (addMonth tz ps) (Suc it)"
          using "1" [OF inRange noWindow] False by (simp add: checkThrows_def)
        have "?R (addMonth tz ps) (Suc it) \<longleftrightarrow> ?R ps it"
        proof
          assume "?R (addMonth tz ps) (Suc it)"
          then obtain k where k: "n = Suc it + k" "n < MAX_ITERATIONS"
            "\<forall>j\<le>k. (addMonth tz ^^ j) (addMonth tz ps) \<le> now"
            "now < (addMonth tz ^^ Suc k) (addMonth tz ps)"
            "a = (addMonth tz ^^ k) (addMonth tz ps)" "b = (addMonth tz ^^ Suc k) (addMonth tz ps)" by blast
          have "\<forall>j\<le>Suc k. (addMonth tz ^^ j) ps \<le> now"
          proof (intro allI impI)
            fix j assume "j \<le> Suc k"
            show "(addMonth tz ^^ j) ps \<le> now"
            proof (cases j)
              case 0 with le show ?thesis by simp
            next
              case (Suc i)
              with \<open>j \<le> Suc k\<close> k(3) have "(addMonth tz ^^ i) (addMonth tz ps) \<le> now" by simp
              with Suc show ?thesis by (simp add: funpow_swap1)
            qed
          qed
          with k show "?R ps it"
            by (intro exI [of _ "Suc k"]) (simp add: funpow_swap1)
        next
          assume "?R ps it"
          then obtain k where k: "n = it + k" "n < MAX_ITERATIONS"
            "\<forall>j\<le>k. (addMonth tz ^^ j) ps \<le> now"
            "now < (addMonth tz ^^ Suc k) ps"
            "a = (addMonth tz ^^ k) ps" "b = (addMonth tz ^^ Suc k) ps" by blast
          have "k \<noteq> 0"
          proof
            assume "k = 0"
            with k(4) have "now < addMonth tz ps" by simp
            with le show False by simp
          qed
          then obtain i where i: "k = Suc i" by (cases k) auto
          have "\<forall>j\<le>i. (addMonth tz ^^ j) (addMonth tz ps) \<le> now"
          proof (intro allI impI)
            fix j assume "j \<le> i"
            with i have "Suc j \<le> k" by simp
            with k(3) have "(addMonth tz ^^ Suc j) ps \<le> now" by blast
            then show "(addMonth tz ^^ j) (addMonth tz ps) \<le> now" by (simp add: funpow_swap1)
          qed
          with k i show "?R (addMonth tz ps) (Suc it)"
            by (intro exI [of _ i]) (simp add: funpow_swap1)
        qed
        with step ih show ?thesis by simp
      qed
    qed
  qed
qed

lemma no_invoices_lastInvoiceOf:
  "\<forall>i \<in> set (invoices s). i_customerId i \<noteq> customerId \<Longrightarrow> lastInvoiceOf s customerId = None"
  by (simp add: lastInvoiceOf_def filter_empty_conv split: list.splits)

text \<open>
  The method for a customer whom \<open>findUnique\<close> finds and who has no invoice: it
  returns exactly the period that the loop breaks with, when the year check passes.
\<close>

lemma getCurrentBillingPeriod_no_invoices:
  assumes "findCustomer s customerId = Some customer"
    and "\<forall>i \<in> set (invoices s). i_customerId i \<noteq> customerId"
  shows "getCurrentBillingPeriod tz s now customerId = Inr p \<longleftrightarrow>
           (\<not> getFullYear tz now + 100 < getFullYear tz (c_createdAt customer) \<and>
            (\<exists>k<MAX_ITERATIONS.
               (\<forall>j\<le>k. (addMonth tz ^^ j) (c_createdAt customer) \<le> now) \<and>
               now < (addMonth tz ^^ Suc k) (c_createdAt customer) \<and>
               p = \<lparr>periodStart = (addMonth tz ^^ k) (c_createdAt customer),
                    periodEnd = (addMonth tz ^^ Suc k) (c_createdAt customer),
                    daysRemaining =
                      ceilDiv ((addMonth tz ^^ Suc k) (c_createdAt customer) - now) msPerDay,
                    cycleDay = getDate tz (c_createdAt customer)\<rparr>))"
proof (cases "getFullYear tz now + 100 < getFullYear tz (c_createdAt customer)")
  case True
  with assms show ?thesis
    by (simp add: getCurrentBillingPeriod_def no_invoices_lastInvoiceOf)
next
  case False
  let ?c = "c_createdAt customer"
  have run: "getCurrentBillingPeriod tz s now customerId =
               finishPeriod now (getDate tz ?c) (periodLoop tz StartInFuture now ?c 0)"
    using assms False by (simp add: getCurrentBillingPeriod_def no_invoices_lastInvoiceOf)
  show ?thesis
  proof (cases "periodLoop tz StartInFuture now ?c 0")
    case (Break a b n)
    then obtain k where k: "n = k" "k < MAX_ITERATIONS" "\<forall>j\<le>k. (addMonth tz ^^ j) ?c \<le> now"
      "now < (addMonth tz ^^ Suc k) ?c" "a = (addMonth tz ^^ k) ?c" "b = (addMonth tz ^^ Suc k) ?c"
      using periodLoop_new_customer [of tz now ?c 0 a b n] by auto
    have uniq: "k' = k" if "\<forall>j\<le>k'. (addMonth tz ^^ j) ?c \<le> now" "now < (addMonth tz ^^ Suc k') ?c"
      "k' < MAX_ITERATIONS" for k'
    proof -
      from that have "periodLoop tz StartInFuture now ?c 0 =
                      Break ((addMonth tz ^^ k') ?c) ((addMonth tz ^^ Suc k') ?c) k'"
        using periodLoop_new_customer [of tz now ?c 0 "(addMonth tz ^^ k') ?c" "(addMonth tz ^^ Suc k') ?c" k']
        by auto
      with Break k(1) show ?thesis by simp
    qed
    show ?thesis
    proof
      assume "getCurrentBillingPeriod tz s now customerId = Inr p"
      with run Break k(5,6)
      have "p = \<lparr>periodStart = (addMonth tz ^^ k) ?c, periodEnd = (addMonth tz ^^ Suc k) ?c,
                 daysRemaining = ceilDiv ((addMonth tz ^^ Suc k) ?c - now) msPerDay,
                 cycleDay = getDate tz ?c\<rparr>"
        by (auto simp add: finishPeriod_def)
      with False k(2,3,4) show "\<not> getFullYear tz now + 100 < getFullYear tz ?c \<and>
            (\<exists>k<MAX_ITERATIONS. (\<forall>j\<le>k. (addMonth tz ^^ j) ?c \<le> now) \<and>
               now < (addMonth tz ^^ Suc k) ?c \<and>
               p = \<lparr>periodStart = (addMonth tz ^^ k) ?c, periodEnd = (addMonth tz ^^ Suc k) ?c,
                    daysRemaining = ceilDiv ((addMonth tz ^^ Suc k) ?c - now) msPerDay,
                    cycleDay = getDate tz ?c\<rparr>)"
        by blast
    next
      assume "\<not> getFullYear tz now + 100 < getFullYear tz ?c \<and>
            (\<exists>k<MAX_ITERATIONS. (\<forall>j\<le>k. (addMonth tz ^^ j) ?c \<le> now) \<and>
               now < (addMonth tz ^^ Suc k) ?c \<and>
               p = \<lparr>periodStart = (addMonth tz ^^ k) ?c, periodEnd = (addMonth tz ^^ Suc k) ?c,
                    daysRemaining = ceilDiv ((addMonth tz ^^ Suc k) ?c - now) msPerDay,
                    cycleDay = getDate tz ?c\<rparr>)"
      then obtain k' where k': "k' < MAX_ITERATIONS" "\<forall>j\<le>k'. (addMonth tz ^^ j) ?c \<le> now"
        "now < (addMonth tz ^^ Suc k') ?c"
        "p = \<lparr>periodStart = (addMonth tz ^^ k') ?c, periodEnd = (addMonth tz ^^ Suc k') ?c,
              daysRemaining = ceilDiv ((addMonth tz ^^ Suc k') ?c - now) msPerDay,
              cycleDay = getDate tz ?c\<rparr>"
        by blast
      from uniq [OF k'(2,3,1)] k' have "p = \<lparr>periodStart = a, periodEnd = b,
              daysRemaining = ceilDiv (b - now) msPerDay, cycleDay = getDate tz ?c\<rparr>"
        using k(5,6) by simp
      with run Break show "getCurrentBillingPeriod tz s now customerId = Inr p"
        by (simp add: finishPeriod_def)
    qed
  next
    case Threw
    have none: "\<not> (\<exists>k<MAX_ITERATIONS. (\<forall>j\<le>k. (addMonth tz ^^ j) ?c \<le> now) \<and>
               now < (addMonth tz ^^ Suc k) ?c)"
    proof
      assume "\<exists>k<MAX_ITERATIONS. (\<forall>j\<le>k. (addMonth tz ^^ j) ?c \<le> now) \<and>
               now < (addMonth tz ^^ Suc k) ?c"
      then obtain k where "k < MAX_ITERATIONS" "\<forall>j\<le>k. (addMonth tz ^^ j) ?c \<le> now"
        "now < (addMonth tz ^^ Suc k) ?c" by blast
      then have "periodLoop tz StartInFuture now ?c 0 =
                      Break ((addMonth tz ^^ k) ?c) ((addMonth tz ^^ Suc k) ?c) k"
        using periodLoop_new_customer [of tz now ?c 0 "(addMonth tz ^^ k) ?c" "(addMonth tz ^^ Suc k) ?c" k]
        by auto
      with Threw show False by simp
    qed
    from run Threw have "getCurrentBillingPeriod tz s now customerId \<noteq> Inr p"
      by (simp add: finishPeriod_def)
    with none show ?thesis by blast
  next
    case UsedUp
    have none: "\<not> (\<exists>k<MAX_ITERATIONS. (\<forall>j\<le>k. (addMonth tz ^^ j) ?c \<le> now) \<and>
               now < (addMonth tz ^^ Suc k) ?c)"
    proof
      assume "\<exists>k<MAX_ITERATIONS. (\<forall>j\<le>k. (addMonth tz ^^ j) ?c \<le> now) \<and>
               now < (addMonth tz ^^ Suc k) ?c"
      then obtain k where "k < MAX_ITERATIONS" "\<forall>j\<le>k. (addMonth tz ^^ j) ?c \<le> now"
        "now < (addMonth tz ^^ Suc k) ?c" by blast
      then have "periodLoop tz StartInFuture now ?c 0 =
                      Break ((addMonth tz ^^ k) ?c) ((addMonth tz ^^ Suc k) ?c) k"
        using periodLoop_new_customer [of tz now ?c 0 "(addMonth tz ^^ k) ?c" "(addMonth tz ^^ Suc k) ?c" k]
        by auto
      with UsedUp show False by simp
    qed
    from run UsedUp have "getCurrentBillingPeriod tz s now customerId \<noteq> Inr p"
      by (simp add: finishPeriod_def)
    with none show ?thesis by blast
  qed
qed

lemma find_key:
  assumes "distinct (map f xs)" and "x \<in> set xs"
  shows "find (\<lambda>y. f y = f x) xs = Some x"
  using assms by (induction xs) force+

lemma findCustomer_row:
  assumes "distinct (map c_id (customers s))" and "customer \<in> set (customers s)"
  shows "findCustomer s (c_id customer) = Some customer"
  using find_key [OF assms] by (simp add: findCustomer_def)

text \<open>
  C7, as the code has it, in every time zone. Let the customer be the row of the table
  with the given id (ids are the primary key), and let no invoice be the customer's.
  Then \<open>getCurrentBillingPeriod\<close> returns a period exactly when the local year of the
  creation is not more than 100 years after the local year of \<open>now\<close> and, for some
  \<open>k < 120\<close>, the creation instant and the \<open>k\<close> instants obtained from it by adding
  a month \<open>k\<close> times are all \<open>\<le> now\<close> while one more month gives an instant after
  \<open>now\<close>. The period then starts \<open>k\<close> months after creation and ends one month
  later, \<open>daysRemaining\<close> is \<open>ceil((periodEnd - now) / 24h)\<close> on the time values
  and \<open>cycleDay\<close> is the local day of the month of the creation instant. In every
  other case the method throws. Adding a month is \<open>setMonth(getMonth() + 1)\<close> on the
  local fields: the local date moves on by the number of days of its month, at the same
  local time of day, so a day that the target month does not have carries over into the
  month after it.
\<close>

theorem getCurrentBillingPeriod_new_customer:
  assumes "distinct (map c_id (customers s))"
    and "customer \<in> set (customers s)"
    and "c_id customer = customerId"
    and "\<forall>i \<in> set (invoices s). i_customerId i \<noteq> customerId"
  shows "(getCurrentBillingPeriod tz s now customerId = Inr p \<longleftrightarrow>
           (\<not> getFullYear tz now + 100 < getFullYear tz (c_createdAt customer) \<and>
            (\<exists>k<MAX_ITERATIONS.
               (\<forall>j\<le>k. (addMonth tz ^^ j) (c_createdAt customer) \<le> now) \<and>
               now < (addMonth tz ^^ Suc k) (c_createdAt customer) \<and>
               p = \<lparr>periodStart = (addMonth tz ^^ k) (c_createdAt customer),
                    periodEnd = (addMonth tz ^^ Suc k) (c_createdAt customer),
                    daysRemaining =
                      ceilDiv ((addMonth tz ^^ Suc k) (c_createdAt customer) - now) msPerDay,
                    cycleDay = getDate tz (c_createdAt customer)\<rparr>))) \<and>
         (\<forall>t. addMonth tz t =
                UTC tz (MakeDate (Day (LocalTime tz t)
                                    + daysInMonth (getFullYear tz t) (getMonth tz t))
                          (TimeWithinDay (LocalTime tz t))))"
proof -
  from assms(1,2,3) have found: "findCustomer s customerId = Some customer"
    using findCustomer_row by blast
  from getCurrentBillingPeriod_no_invoices [OF found assms(4)] addMonth_month_length
  show ?thesis by blast
qed

text \<open>
  A customer created on 2024-01-15 at 00:00 UTC, which is 01:00 in Berlin, asked for at
  2024-04-20 10:00 UTC. Three months have been added: the starts are at 01:00 Berlin time
  on the 15th of January, February, March and April, 31, 29 and 31 days apart, and the
  last of them, under summer time, is 2024-04-14 23:00 UTC. The period runs from there
  to 2024-05-14 23:00 UTC, 30 days later; 24 days and 13 hours are left of it, which
  gives 25 days remaining, and the cycle day is 15. The customer is the second row of
  the table, and the one invoice of the store belongs to the customer of the first row.
\<close>

lemma months_from_jan15:
  "addMonth berlin2024 1705276800000 = 1707955200000 \<and>
   addMonth berlin2024 1707955200000 = 1710460800000 \<and>
   addMonth berlin2024 1710460800000 = 1713135600000 \<and>
   addMonth berlin2024 1713135600000 = 1715727600000"
  by code_simp

lemma getDate_jan15: "getDate berlin2024 1705276800000 = 15"
  by code_simp

lemma year_check_jan15:
  "\<not> getFullYear berlin2024 1713607200000 + 100 < getFullYear berlin2024 1705276800000"
  by code_simp

lemma all_le_3: "(\<forall>j\<le>3. P (j::nat)) \<longleftrightarrow> P 0 \<and> P 1 \<and> P 2 \<and> P 3"
proof
  assume "\<forall>j\<le>3. P j"
  then show "P 0 \<and> P 1 \<and> P 2 \<and> P 3" by simp
next
  assume a: "P 0 \<and> P 1 \<and> P 2 \<and> P 3"
  show "\<forall>j\<le>3. P j"
  proof (intro allI impI)
    fix j :: nat assume "j \<le> 3"
    then consider "j = 0" | "j = 1" | "j = 2" | "j = 3" by linarith
    then show "P j" using a by cases simp_all
  qed
qed

theorem getCurrentBillingPeriod_new_customer_witness:
  "distinct (map c_id (customers twoCustomerDb)) \<and>
   customers twoCustomerDb ! 1 =
     \<lparr>c_id = 1, c_name = ''Test Customer'', c_email = ''test@example.com'',
       c_tierId = 3, c_isActive = True, c_createdAt = 1705276800000\<rparr> \<and>
   map i_customerId (invoices twoCustomerDb) = [2] \<and>
   getCurrentBillingPeriod berlin2024 twoCustomerDb 1713607200000 1 =
     Inr \<lparr>periodStart = 1713135600000, periodEnd = 1715727600000, daysRemaining = 25,
          cycleDay = 15\<rparr>"
proof -
  let ?customer = "\<lparr>c_id = 1, c_name = ''Test Customer'', c_email = ''test@example.com'',
            c_tierId = 3, c_isActive = True, c_createdAt = 1705276800000\<rparr>"
  have pk: "distinct (map c_id (customers twoCustomerDb))"
    by (simp add: twoCustomerDb_def)
  have row: "?customer \<in> set (customers twoCustomerDb)"
    by (simp add: twoCustomerDb_def)
  have second: "customers twoCustomerDb ! 1 = ?customer"
    by (simp add: twoCustomerDb_def)
  have key: "c_id ?customer = 1"
    by simp
  have fresh: "\<forall>i \<in> set (invoices twoCustomerDb). i_customerId i \<noteq> 1"
    by (simp add: twoCustomerDb_def)
  have others: "map i_customerId (invoices twoCustomerDb) = [2]"
    by (simp add: twoCustomerDb_def)
  have step: "addMonth berlin2024 1705276800000 = 1707955200000"
    "(addMonth berlin2024 ^^ 2) 1705276800000 = 1710460800000"
    "(addMonth berlin2024 ^^ 3) 1705276800000 = 1713135600000"
    "(addMonth berlin2024 ^^ 4) 1705276800000 = 1715727600000"
    by (simp_all add: months_from_jan15 eval_nat_numeral)
  have "\<exists>k<MAX_ITERATIONS.
          (\<forall>j\<le>k. (addMonth berlin2024 ^^ j) (c_createdAt ?customer) \<le> 1713607200000) \<and>
          1713607200000 < (addMonth berlin2024 ^^ Suc k) (c_createdAt ?customer) \<and>
          \<lparr>periodStart = 1713135600000, periodEnd = 1715727600000, daysRemaining = 25,
            cycleDay = 15\<rparr> =
          \<lparr>periodStart = (addMonth berlin2024 ^^ k) (c_createdAt ?customer),
            periodEnd = (addMonth berlin2024 ^^ Suc k) (c_createdAt ?customer),
            daysRemaining =
              ceilDiv ((addMonth berlin2024 ^^ Suc k) (c_createdAt ?customer) - 1713607200000)
                msPerDay,
            cycleDay = getDate berlin2024 (c_createdAt ?customer)\<rparr>"
    by (rule exI [of _ 3])
      (simp add: all_le_3 step getDate_jan15 ceilDiv_def msPerDay_def MAX_ITERATIONS_def)
  with year_check_jan15
  have "getCurrentBillingPeriod berlin2024 twoCustomerDb 1713607200000 1 =
     Inr \<lparr>periodStart = 1713135600000, periodEnd = 1715727600000, daysRemaining = 25,
          cycleDay = 15\<rparr>"
    using getCurrentBillingPeriod_new_customer [OF pk row key fresh, of berlin2024 1713607200000
        "\<lparr>periodStart = 1713135600000, periodEnd = 1715727600000, daysRemaining = 25,
          cycleDay = 15\<rparr>"]
    by simp
  with pk second others show ?thesis by simp
qed

text \<open>
  The tests of the repository for this method, in that time zone: the first period of
  the customer created on 2024-01-15 (scenario S5), the period after an invoice that
  ended on 2024-03-15 at 00:00 UTC, which begins on 2024-03-16 at 00:00 UTC and ends on
  2024-04-15 at 23:00 UTC (01:00 on the 16th in Berlin, by then under summer time) with
  27 days remaining, and the customer created on 2024-01-31, whose first period ends in
  March.
\<close>

lemma first_period_test:
  "getCurrentBillingPeriod berlin2024 (newCustomerDb 1705276800000) 1707559200000 1 =
     Inr \<lparr>periodStart = 1705276800000, periodEnd = 1707955200000, daysRemaining = 5,
          cycleDay = 15\<rparr>"
  by code_simp

lemma last_invoice_test:
  "getCurrentBillingPeriod berlin2024 (invoicedDb 1707955200000 1710460800000) 1710928800000 1 =
     Inr \<lparr>periodStart = 1710547200000, periodEnd = 1713222000000, daysRemaining = 27,
          cycleDay = 15\<rparr>"
  by code_simp

lemma month_end_test:
  "getCurrentBillingPeriod berlin2024 (newCustomerDb 1706659200000) 1707991200000 1 =
     Inr \<lparr>periodStart = 1706659200000, periodEnd = 1709337600000, daysRemaining = 16,
          cycleDay = 31\<rparr> \<and>
   getMonth berlin2024 1709337600000 = 2 \<and> getDate berlin2024 1709337600000 = 2"
  by code_simp

text \<open>
  A period that holds the end of summer time: a customer created on 2024-10-16 at 00:00
  in Berlin (2024-10-15 22:00 UTC), asked for at 2024-10-19 22:30 UTC. The period ends
  on 2024-11-16 at 00:00 in Berlin, which is 2024-11-15 23:00 UTC, 27 days and half an
  hour later: 28 days remain.
\<close>

lemma period_over_clock_change:
  "getCurrentBillingPeriod berlin2024 (newCustomerDb 1729029600000) 1729377000000 1 =
     Inr \<lparr>periodStart = 1729029600000, periodEnd = 1731711600000, daysRemaining = 28,
          cycleDay = 16\<rparr>"
  by code_simp

lemma period_may:
  "getCurrentBillingPeriod berlin2024 (newCustomerDb 1706659200000) 1715335200000 1 =
     Inr \<lparr>periodStart = 1714604400000, periodEnd = 1717282800000, daysRemaining = 23,
          cycleDay = 31\<rparr>"
  by code_simp

lemma clamped_from_jan31:
  "addMonthClamped berlin2024 1706659200000 = 1709164800000 \<and>
   addMonthClamped berlin2024 1709164800000 = 1711670400000 \<and>
   addMonthClamped berlin2024 1711670400000 = 1714345200000 \<and>
   addMonthClamped berlin2024 1714345200000 = 1716937200000"
  by code_simp

text \<open>
  The claim C7 as stated clamps to the last day of a shorter month. Take a customer
  created on 2024-01-31 at 00:00 UTC (01:00 in Berlin). Adding a month with clamping
  gives 2024-02-29, so on 2024-02-15 at 10:00 UTC the window of the claim is 2024-01-31
  to 2024-02-29; the code returns the window that ends on 2024-03-02 (month 2 counted
  from 0, day 2). On 2024-05-10 at 10:00 UTC three clamped months lead to 2024-04-29
  (2024-04-28 23:00 UTC) and a fourth to 2024-05-29, a window that holds that instant;
  the code returns the window from 2024-05-02 to 2024-06-02 (2024-05-01 23:00 UTC to
  2024-06-01 23:00 UTC).
\<close>

theorem getCurrentBillingPeriod_clamp_counterexample:
  "(1706659200000::int) \<le> 1707991200000 \<and>
   1707991200000 < addMonthClamped berlin2024 1706659200000 \<and>
   addMonthClamped berlin2024 1706659200000 = 1709164800000 \<and>
   getCurrentBillingPeriod berlin2024 (newCustomerDb 1706659200000) 1707991200000 1 =
     Inr \<lparr>periodStart = 1706659200000, periodEnd = 1709337600000, daysRemaining = 16,
          cycleDay = 31\<rparr> \<and>
   getMonth berlin2024 1709337600000 = 2 \<and> getDate berlin2024 1709337600000 = 2 \<and>
   (addMonthClamped berlin2024 ^^ 3) 1706659200000 = 1714345200000 \<and>
   (addMonthClamped berlin2024 ^^ 4) 1706659200000 = 1716937200000 \<and>
   (1714345200000::int) \<le> 1715335200000 \<and> (1715335200000::int) < 1716937200000 \<and>
   getCurrentBillingPeriod berlin2024 (newCustomerDb 1706659200000) 1715335200000 1 =
     Inr \<lparr>periodStart = 1714604400000, periodEnd = 1717282800000, daysRemaining = 23,
          cycleDay = 31\<rparr>"
  using month_end_test
  by (simp add: period_may clamped_from_jan31 eval_nat_numeral)

section \<open>Properties of the invoice engine\<close>

lemma findCustomer_cong: "customers s' = customers s \<Longrightarrow> findCustomer s' = findCustomer s"
  by (rule ext) (simp add: findCustomer_def)

lemma tierOf_cong: "tiers s' = tiers s \<Longrightarrow> tierOf s' = tierOf s"
  by (rule ext) (simp add: tierOf_def)

lemma usage_cong:
  "usageHistory s' = usageHistory s \<Longrightarrow> calculateUsageForPeriod s' = calculateUsageForPeriod s"
  by (intro ext) (simp add: calculateUsageForPeriod_def)

lemma getInvoiceById_state: "snd (getInvoiceById i s) = s"
  by (simp add: getInvoiceById_def split: option.splits)

lemma invoiceCreate_Inr:
  assumes "invoiceCreate row s = (Inr invoice, s1)"
  shows "invoiceSeq s + 1 \<notin> set (map i_id (invoices s)) \<and> invoice = row\<lparr>i_id := invoiceSeq s + 1\<rparr>
         \<and> s1 = s\<lparr>invoiceSeq := invoiceSeq s + 1, invoices := invoices s @ [invoice]\<rparr>"
  using assms by (auto simp add: invoiceCreate_def split: if_splits)

lemma lineItemCreateMany_Inr:
  assumes "lineItemCreateMany items s = (Inr n, s1)"
  shows "s1 = s\<lparr>lineItemSeq := lineItemSeq s + int (length items),
                 lineItems := lineItems s @ numbered (lineItemSeq s) items\<rparr>"
  using assms by (auto simp add: lineItemCreateMany_def split: if_splits)

lemma createInvoiceLineItems_Inr:
  assumes "createInvoiceLineItems tz now invoiceId customerId pStart pEnd s = (Inr u, s1)"
    and "findCustomer s customerId = Some customer" and "tierOf s customer = Some tier"
  shows "s1 = s\<lparr>lineItemSeq := lineItemSeq s + 2,
                 lineItems := lineItems s @ numbered (lineItemSeq s)
                   (lineItemsData tz now invoiceId tier
                      (calculateUsageForPeriod s customerId pStart pEnd) pStart)\<rparr>"
proof -
  from assms obtain n where
    "lineItemCreateMany (lineItemsData tz now invoiceId tier
        (calculateUsageForPeriod s customerId pStart pEnd) pStart) s = (Inr n, s1)"
    by (auto simp add: createInvoiceLineItems_def andThen_def ret_def split: sum.splits prod.splits)
  from lineItemCreateMany_Inr [OF this] show ?thesis
    by (simp add: lineItemsData_def)
qed

lemma generateInvoice_Inr:
  assumes "generateInvoice tz clock dto s = (Inr r, s')"
  shows "\<exists>customer tier.
           \<not> checkForDuplicateInvoice s (dto_customerId dto) (dto_periodStart dto) (dto_periodEnd dto)
         \<and> findCustomer s (dto_customerId dto) = Some customer \<and> tierOf s customer = Some tier
         \<and> invoiceSeq s + 1 \<notin> set (map i_id (invoices s))
         \<and> s' = afterGenerate tz clock dto s tier
         \<and> getInvoiceById (invoiceSeq s + 1) s' = (Inr r, s')"
proof -
  from assms have nodup:
    "\<not> checkForDuplicateInvoice s (dto_customerId dto) (dto_periodStart dto) (dto_periodEnd dto)"
    by (auto simp add: generateInvoice_def split: if_splits)
  from assms nodup obtain customer where c: "findCustomer s (dto_customerId dto) = Some customer"
    by (cases "findCustomer s (dto_customerId dto)") (auto simp add: generateInvoice_def)
  from assms nodup c obtain tier where t: "tierOf s customer = Some tier"
    by (cases "tierOf s customer") (auto simp add: generateInvoice_def)
  let ?rest = "\<lambda>invoice. andThen (createInvoiceLineItems tz (atLineItems clock) (i_id invoice)
                                (dto_customerId dto) (dto_periodStart dto) (dto_periodEnd dto))
                     (\<lambda>_. getInvoiceById (i_id invoice))"
  from assms nodup c t have run:
    "andThen (invoiceCreate (invoiceData tz clock dto s tier)) ?rest s = (Inr r, s')"
    by (simp add: generateInvoice_def)
  then obtain invoice s1 where cr: "invoiceCreate (invoiceData tz clock dto s tier) s = (Inr invoice, s1)"
    and rest: "?rest invoice s1 = (Inr r, s')"
    by (auto simp add: andThen_def split: sum.splits prod.splits)
  note shape = invoiceCreate_Inr [OF cr]
  from shape have iid: "i_id invoice = invoiceSeq s + 1" by simp
  from shape have s1: "s1 = s\<lparr>invoiceSeq := invoiceSeq s + 1, invoices := invoices s @ [invoice]\<rparr>"
    by simp
  from rest obtain u s2 where li: "createInvoiceLineItems tz (atLineItems clock) (i_id invoice)
                                (dto_customerId dto) (dto_periodStart dto) (dto_periodEnd dto) s1 = (Inr u, s2)"
    and get: "getInvoiceById (i_id invoice) s2 = (Inr r, s')"
    by (auto simp add: andThen_def split: sum.splits prod.splits)
  have c1: "findCustomer s1 = findCustomer s" by (rule findCustomer_cong) (simp add: s1)
  have t1: "tierOf s1 = tierOf s" by (rule tierOf_cong) (simp add: s1)
  have u1: "calculateUsageForPeriod s1 = calculateUsageForPeriod s" by (rule usage_cong) (simp add: s1)
  from createInvoiceLineItems_Inr [OF li] c t c1 t1
  have s2: "s2 = s1\<lparr>lineItemSeq := lineItemSeq s1 + 2,
                 lineItems := lineItems s1 @ numbered (lineItemSeq s1)
                   (lineItemsData tz (atLineItems clock) (i_id invoice) tier
                      (calculateUsageForPeriod s (dto_customerId dto) (dto_periodStart dto) (dto_periodEnd dto))
                      (dto_periodStart dto))\<rparr>"
    by (simp add: u1)
  from get getInvoiceById_state [of "i_id invoice" s2] have "s' = s2" by simp
  with s2 s1 shape have "s' = afterGenerate tz clock dto s tier"
    by (simp add: afterGenerate_def)
  with nodup c t shape get iid \<open>s' = s2\<close> show ?thesis by auto
qed


lemma numbered_two:
  "numbered seq [a, b] = [a\<lparr>li_id := seq + 1\<rparr>, b\<lparr>li_id := seq + 2\<rparr>]"
  by (simp add: numbered_def upt_rec)

lemma find_fresh_append:
  "\<forall>x \<in> set xs. \<not> P x \<Longrightarrow> P y \<Longrightarrow> find P (xs @ [y]) = Some y"
  by (induction xs) auto

lemma generateInvoice_february:
  "generateInvoice utcZone (atOnce 1707559200000) februaryCall usageDb = (Inr pendingResponse, pendingDb)"
  by code_simp

lemma generateInvoice_february_again:
  "generateInvoice utcZone (atOnce 1707559260000) februaryCall pendingDb = (Inl BadRequestException, pendingDb)"
  by code_simp


lemma tierOf_row:
  assumes "distinct (map t_id (tiers s))" and "tier \<in> set (tiers s)"
    and "t_id tier = c_tierId customer"
  shows "tierOf s customer = Some tier"
  using find_key [OF assms(1,2)] assms(3) by (simp add: tierOf_def)

text \<open>
  C2. Take a store that keeps its keys: the ids of the customers and of the tiers are
  distinct and every line item belongs to an invoice. When
  \<open>generateInvoice(customerId, periodStart, periodEnd)\<close> goes through,
  \<open>getInvoiceById\<close> on the new store gives back the very invoice that
  \<open>generateInvoice\<close> answered. It is the invoice of that customer and that period, its
  status is \<open>PENDING\<close> and its \<open>totalUsage\<close> is the number of the customer's usage
  records with \<open>periodStart \<le> timestamp < periodEnd\<close>. The customers table has a
  row with the given id and the tiers table a row with the \<open>tierId\<close> of that row; and
  for the customer row with that id and the tier row with that \<open>tierId\<close>, the amount
  is the price of the tier and the line items are exactly two: the tier plan item
  (quantity 1, unit price = amount = tier price, named after the tier and the local
  month and year of \<open>periodStart\<close>) and the \<open>API Calls\<close> item (quantity = the usage
  count, unit price 0, amount 0).
\<close>

theorem generateInvoice_then_getInvoiceById:
  assumes fk: "set (map li_invoiceId (lineItems s)) \<subseteq> set (map i_id (invoices s))"
    and pk_customers: "distinct (map c_id (customers s))"
    and pk_tiers: "distinct (map t_id (tiers s))"
    and ok: "generateInvoice tz clock dto s = (Inr r, s')"
  shows "getInvoiceById (r_id r) s' = (Inr r, s') \<and> r_status r = PENDING \<and>
         r_customerId r = dto_customerId dto \<and>
         r_periodStart r = dto_periodStart dto \<and> r_periodEnd r = dto_periodEnd dto \<and>
         r_totalUsage r =
           int (length (filter (\<lambda>u. uh_customerId u = dto_customerId dto
                                   \<and> dto_periodStart dto \<le> uh_timestamp u
                                   \<and> uh_timestamp u < dto_periodEnd dto) (usageHistory s))) \<and>
         (\<exists>customer \<in> set (customers s). \<exists>tier \<in> set (tiers s).
            c_id customer = dto_customerId dto \<and> t_id tier = c_tierId customer) \<and>
         (\<forall>customer \<in> set (customers s). \<forall>tier \<in> set (tiers s).
            c_id customer = dto_customerId dto \<and> t_id tier = c_tierId customer \<longrightarrow>
            r_amount r = t_price tier \<and>
            r_lineItems r =
              [\<lparr>ri_id = lineItemSeq s + 1,
                 ri_description = t_name tier @ '' Plan - ''
                    @ monthName (getMonth tz (dto_periodStart dto)) @ '' ''
                    @ showInt (getFullYear tz (dto_periodStart dto)),
                 ri_quantity = 1, ri_unitPrice = t_price tier, ri_amount = t_price tier,
                 ri_createdAt = atLineItems clock\<rparr>,
               \<lparr>ri_id = lineItemSeq s + 2,
                 ri_description = ''API Calls: '' @ toLocaleString (r_totalUsage r) @ '' requests'',
                 ri_quantity = r_totalUsage r, ri_unitPrice = 0, ri_amount = 0,
                 ri_createdAt = atLineItems clock\<rparr>])"
proof -
  from generateInvoice_Inr [OF ok] obtain customer tier where
    c: "findCustomer s (dto_customerId dto) = Some customer" and t: "tierOf s customer = Some tier"
    and fresh: "invoiceSeq s + 1 \<notin> set (map i_id (invoices s))"
    and s': "s' = afterGenerate tz clock dto s tier"
    and get: "getInvoiceById (invoiceSeq s + 1) s' = (Inr r, s')" by blast
  let ?row = "(invoiceData tz clock dto s tier)\<lparr>i_id := invoiceSeq s + 1\<rparr>"
  have inv': "invoices s' = invoices s @ [?row]"
    by (simp add: s' afterGenerate_def)
  have found: "find (\<lambda>i. i_id i = invoiceSeq s + 1) (invoices s') = Some ?row"
    unfolding inv' using fresh by (intro find_fresh_append) force+
  have cust: "findCustomer s' (i_customerId ?row) = Some customer"
    using c by (simp add: s' afterGenerate_def findCustomer_def invoiceData_def)
  have none: "filter (\<lambda>item. li_invoiceId item = invoiceSeq s + 1) (lineItems s) = []"
    using fk fresh by (force simp add: filter_empty_conv)
  have items: "filter (\<lambda>item. li_invoiceId item = i_id ?row) (lineItems s') =
                 numbered (lineItemSeq s)
                   (lineItemsData tz (atLineItems clock) (invoiceSeq s + 1) tier
                      (calculateUsageForPeriod s (dto_customerId dto) (dto_periodStart dto)
                         (dto_periodEnd dto)) (dto_periodStart dto))"
    using none by (simp add: s' afterGenerate_def lineItemsData_def numbered_two)
  from get found cust items have r: "r =
      \<lparr>r_id = i_id ?row, r_invoiceNumber = i_invoiceNumber ?row,
       r_customerId = i_customerId ?row, r_customerName = c_name customer,
       r_customerEmail = c_email customer, r_periodStart = i_periodStart ?row,
       r_periodEnd = i_periodEnd ?row, r_totalUsage = i_totalUsage ?row,
       r_amount = i_amount ?row, r_status = i_status ?row,
       r_dueDate = i_dueDate ?row, r_paidAt = i_paidAt ?row,
       r_stripeInvoiceId = i_stripeInvoiceId ?row,
       r_createdAt = i_createdAt ?row,
       r_lineItems = map lineItemDto (numbered (lineItemSeq s)
                   (lineItemsData tz (atLineItems clock) (invoiceSeq s + 1) tier
                      (calculateUsageForPeriod s (dto_customerId dto) (dto_periodStart dto)
                         (dto_periodEnd dto)) (dto_periodStart dto)))\<rparr>"
    by (simp add: getInvoiceById_def)
  have rid: "r_id r = invoiceSeq s + 1" by (simp add: r)
  have p1: "getInvoiceById (r_id r) s' = (Inr r, s')" using get rid by simp
  have p2: "r_status r = PENDING" by (simp add: r invoiceData_def)
  have p3: "r_customerId r = dto_customerId dto \<and>
            r_periodStart r = dto_periodStart dto \<and> r_periodEnd r = dto_periodEnd dto"
    by (simp add: r invoiceData_def)
  have p4: "r_totalUsage r =
           int (length (filter (\<lambda>u. uh_customerId u = dto_customerId dto
                                   \<and> dto_periodStart dto \<le> uh_timestamp u
                                   \<and> uh_timestamp u < dto_periodEnd dto) (usageHistory s)))"
    by (simp add: r invoiceData_def calculateUsageForPeriod_def)
  have amount: "r_amount r = t_price tier" by (simp add: r invoiceData_def)
  have lines: "r_lineItems r =
              [\<lparr>ri_id = lineItemSeq s + 1,
                 ri_description = t_name tier @ '' Plan - ''
                    @ monthName (getMonth tz (dto_periodStart dto)) @ '' ''
                    @ showInt (getFullYear tz (dto_periodStart dto)),
                 ri_quantity = 1, ri_unitPrice = t_price tier, ri_amount = t_price tier,
                 ri_createdAt = atLineItems clock\<rparr>,
               \<lparr>ri_id = lineItemSeq s + 2,
                 ri_description = ''API Calls: '' @ toLocaleString (r_totalUsage r) @ '' requests'',
                 ri_quantity = r_totalUsage r, ri_unitPrice = 0, ri_amount = 0,
                 ri_createdAt = atLineItems clock\<rparr>]"
    by (simp add: r invoiceData_def lineItemsData_def numbered_two lineItemDto_def)
  have crow: "customer \<in> set (customers s) \<and> c_id customer = dto_customerId dto"
    using c by (auto simp add: findCustomer_def find_Some_iff)
  have trow: "tier \<in> set (tiers s) \<and> t_id tier = c_tierId customer"
    using t by (auto simp add: tierOf_def find_Some_iff)
  have p5: "\<exists>customer \<in> set (customers s). \<exists>tier \<in> set (tiers s).
            c_id customer = dto_customerId dto \<and> t_id tier = c_tierId customer"
    using crow trow by blast
  have only: "customer' = customer \<and> tier' = tier"
    if "customer' \<in> set (customers s)" "tier' \<in> set (tiers s)"
      "c_id customer' = dto_customerId dto" "t_id tier' = c_tierId customer'"
    for customer' tier'
  proof -
    from findCustomer_row [OF pk_customers that(1)] that(3) c
    have same: "customer' = customer" by simp
    from tierOf_row [OF pk_tiers that(2)] that(4) same t
    have "tier' = tier" by simp
    with same show ?thesis by simp
  qed
  have p6: "\<forall>customer \<in> set (customers s). \<forall>tier \<in> set (tiers s).
            c_id customer = dto_customerId dto \<and> t_id tier = c_tierId customer \<longrightarrow>
            r_amount r = t_price tier \<and>
            r_lineItems r =
              [\<lparr>ri_id = lineItemSeq s + 1,
                 ri_description = t_name tier @ '' Plan - ''
                    @ monthName (getMonth tz (dto_periodStart dto)) @ '' ''
                    @ showInt (getFullYear tz (dto_periodStart dto)),
                 ri_quantity = 1, ri_unitPrice = t_price tier, ri_amount = t_price tier,
                 ri_createdAt = atLineItems clock\<rparr>,
               \<lparr>ri_id = lineItemSeq s + 2,
                 ri_description = ''API Calls: '' @ toLocaleString (r_totalUsage r) @ '' requests'',
                 ri_quantity = r_totalUsage r, ri_unitPrice = 0, ri_amount = 0,
                 ri_createdAt = atLineItems clock\<rparr>]"
  proof (intro ballI impI)
    fix customer' tier'
    assume "customer' \<in> set (customers s)" "tier' \<in> set (tiers s)"
      "c_id customer' = dto_customerId dto \<and> t_id tier' = c_tierId customer'"
    then have "customer' = customer \<and> tier' = tier" using only by blast
    then show "r_amount r = t_price tier' \<and>
            r_lineItems r =
              [\<lparr>ri_id = lineItemSeq s + 1,
                 ri_description = t_name tier' @ '' Plan - ''
                    @ monthName (getMonth tz (dto_periodStart dto)) @ '' ''
                    @ showInt (getFullYear tz (dto_periodStart dto)),
                 ri_quantity = 1, ri_unitPrice = t_price tier', ri_amount = t_price tier',
                 ri_createdAt = atLineItems clock\<rparr>,
               \<lparr>ri_id = lineItemSeq s + 2,
                 ri_description = ''API Calls: '' @ toLocaleString (r_totalUsage r) @ '' requests'',
                 ri_quantity = r_totalUsage r, ri_unitPrice = 0, ri_amount = 0,
                 ri_createdAt = atLineItems clock\<rparr>]"
      using amount lines by simp
  qed
  from p1 p2 p3 p4 p5 p6 show ?thesis by blast
qed

text \<open>
  The store with two tiers and two customers: the customer with id 1 is the second row
  and has the tier \<open>PRO\<close>, the second row of the tiers. Of the four usage records two
  are the customer's and lie in the period from 2024-01-15 to 2024-02-15 (one belongs
  to the other customer, one lies at the end of the period). The call of 2024-02-10
  10:00 UTC, in Berlin, gives the invoice with id 2 for 99.00, the second invoice
  number of February, with the line items 3 and 4.
\<close>

lemma generateInvoice_second:
  "generateInvoice berlin2024 (atOnce 1707559200000) februaryCall twoCustomerDb =
     (Inr secondResponse, secondDb)"
  by code_simp

theorem generateInvoice_then_getInvoiceById_witness:
  "set (map li_invoiceId (lineItems twoCustomerDb)) \<subseteq> set (map i_id (invoices twoCustomerDb)) \<and>
   distinct (map c_id (customers twoCustomerDb)) \<and>
   distinct (map t_id (tiers twoCustomerDb)) \<and>
   customers twoCustomerDb ! 1 =
     \<lparr>c_id = 1, c_name = ''Test Customer'', c_email = ''test@example.com'',
       c_tierId = 3, c_isActive = True, c_createdAt = 1705276800000\<rparr> \<and>
   tiers twoCustomerDb ! 1 =
     \<lparr>t_id = 3, t_name = ''PRO'', t_price = 9900, t_rateLimit = 10000\<rparr> \<and>
   generateInvoice berlin2024 (atOnce 1707559200000) februaryCall twoCustomerDb =
     (Inr secondResponse, secondDb) \<and>
   getInvoiceById 2 secondDb = (Inr secondResponse, secondDb) \<and>
   r_status secondResponse = PENDING \<and> r_amount secondResponse = 9900 \<and>
   r_totalUsage secondResponse = 2 \<and>
   r_lineItems secondResponse =
     [\<lparr>ri_id = 3, ri_description = ''PRO Plan - January 2024'',
        ri_quantity = 1, ri_unitPrice = 9900, ri_amount = 9900,
        ri_createdAt = 1707559200000\<rparr>,
      \<lparr>ri_id = 4, ri_description = ''API Calls: 2 requests'',
        ri_quantity = 2, ri_unitPrice = 0, ri_amount = 0,
        ri_createdAt = 1707559200000\<rparr>]"
proof -
  let ?customer = "\<lparr>c_id = 1, c_name = ''Test Customer'', c_email = ''test@example.com'',
       c_tierId = 3, c_isActive = True, c_createdAt = 1705276800000\<rparr>"
  let ?tier = "\<lparr>t_id = 3, t_name = ''PRO'', t_price = 9900, t_rateLimit = 10000\<rparr>"
  have fk: "set (map li_invoiceId (lineItems twoCustomerDb))
              \<subseteq> set (map i_id (invoices twoCustomerDb))"
    by (simp add: twoCustomerDb_def)
  have pkc: "distinct (map c_id (customers twoCustomerDb))"
    by (simp add: twoCustomerDb_def)
  have pkt: "distinct (map t_id (tiers twoCustomerDb))"
    by (simp add: twoCustomerDb_def)
  have crow: "customers twoCustomerDb ! 1 = ?customer" "?customer \<in> set (customers twoCustomerDb)"
    by (simp_all add: twoCustomerDb_def)
  have trow: "tiers twoCustomerDb ! 1 = ?tier" "?tier \<in> set (tiers twoCustomerDb)"
    by (simp_all add: twoCustomerDb_def)
  have keys: "c_id ?customer = dto_customerId februaryCall \<and> t_id ?tier = c_tierId ?customer"
    by (simp add: februaryCall_def)
  note known = generateInvoice_then_getInvoiceById [OF fk pkc pkt generateInvoice_second]
  from known have "getInvoiceById (r_id secondResponse) secondDb = (Inr secondResponse, secondDb)"
    by (rule conjunct1)
  then have get: "getInvoiceById 2 secondDb = (Inr secondResponse, secondDb)"
    by (simp add: secondResponse_def)
  from known have "\<forall>customer \<in> set (customers twoCustomerDb). \<forall>tier \<in> set (tiers twoCustomerDb).
            c_id customer = dto_customerId februaryCall \<and> t_id tier = c_tierId customer \<longrightarrow>
            r_amount secondResponse = t_price tier"
    by blast
  with crow(2) trow(2) keys have "r_amount secondResponse = t_price ?tier"
    by blast
  then have amount: "r_amount secondResponse = 9900"
    by simp
  have rest: "r_status secondResponse = PENDING \<and> r_totalUsage secondResponse = 2 \<and>
    r_lineItems secondResponse =
     [\<lparr>ri_id = 3, ri_description = ''PRO Plan - January 2024'',
        ri_quantity = 1, ri_unitPrice = 9900, ri_amount = 9900,
        ri_createdAt = 1707559200000\<rparr>,
      \<lparr>ri_id = 4, ri_description = ''API Calls: 2 requests'',
        ri_quantity = 2, ri_unitPrice = 0, ri_amount = 0,
        ri_createdAt = 1707559200000\<rparr>]"
    by (simp add: secondResponse_def)
  from fk pkc pkt crow(1) trow(1) generateInvoice_second get amount rest
  show ?thesis by simp
qed

text \<open>
  C6. \<open>generateInvoice\<close> throws the bad-request exception when an invoice with the same
  customer, \<open>periodStart\<close> and \<open>periodEnd\<close> exists, and the store is then left as it
  was (no invoice, no line item, no sequence value is used); and after a call that went
  through, a second call with the same arguments, at any later clock readings, throws
  that exception.
\<close>

theorem generateInvoice_duplicate:
  "(checkForDuplicateInvoice s (dto_customerId dto) (dto_periodStart dto) (dto_periodEnd dto) \<longrightarrow>
      generateInvoice tz clock dto s = (Inl BadRequestException, s)) \<and>
   (generateInvoice tz clock dto s = (Inr r, s') \<longrightarrow>
      generateInvoice tz clock2 dto s' = (Inl BadRequestException, s'))"
proof (intro conjI impI)
  assume "checkForDuplicateInvoice s (dto_customerId dto) (dto_periodStart dto) (dto_periodEnd dto)"
  then show "generateInvoice tz clock dto s = (Inl BadRequestException, s)"
    by (simp add: generateInvoice_def)
next
  assume "generateInvoice tz clock dto s = (Inr r, s')"
  from generateInvoice_Inr [OF this] obtain tier where s': "s' = afterGenerate tz clock dto s tier"
    by blast
  let ?row = "(invoiceData tz clock dto s tier)\<lparr>i_id := invoiceSeq s + 1\<rparr>"
  have "?row \<in> set (invoices s')"
    by (simp add: s' afterGenerate_def)
  moreover have "i_customerId ?row = dto_customerId dto \<and> i_periodStart ?row = dto_periodStart dto
                 \<and> i_periodEnd ?row = dto_periodEnd dto"
    by (simp add: invoiceData_def)
  ultimately
  have "checkForDuplicateInvoice s' (dto_customerId dto) (dto_periodStart dto) (dto_periodEnd dto)"
    unfolding checkForDuplicateInvoice_def find_None_iff by blast
  then show "generateInvoice tz clock2 dto s' = (Inl BadRequestException, s')"
    by (simp add: generateInvoice_def)
qed

theorem generateInvoice_duplicate_witness:
  "checkForDuplicateInvoice pendingDb (dto_customerId februaryCall) (dto_periodStart februaryCall)
     (dto_periodEnd februaryCall) \<and>
   generateInvoice utcZone (atOnce 1707559200000) februaryCall usageDb = (Inr pendingResponse, pendingDb) \<and>
   generateInvoice utcZone (atOnce 1707559260000) februaryCall pendingDb =
     (Inl BadRequestException, pendingDb)"
proof -
  have dup: "checkForDuplicateInvoice pendingDb (dto_customerId februaryCall)
               (dto_periodStart februaryCall) (dto_periodEnd februaryCall)"
    by (simp add: checkForDuplicateInvoice_def pendingDb_def februaryCall_def)
  from generateInvoice_duplicate [of usageDb februaryCall utcZone "atOnce 1707559200000" pendingResponse
      pendingDb "atOnce 1707559260000"] generateInvoice_february
  have "generateInvoice utcZone (atOnce 1707559260000) februaryCall pendingDb =
          (Inl BadRequestException, pendingDb)"
    by simp
  with dup generateInvoice_february show ?thesis by simp
qed

lemma find_map_same:
  "(\<And>x. P (f x) = P x) \<Longrightarrow> find P (map f xs) = map_option f (find P xs)"
  by (induction xs) auto

lemma updateInvoiceStatus_Inr:
  assumes "updateInvoiceStatus invoiceId u s = (Inr r, s1)"
  shows "\<exists>invoice. find (\<lambda>i. i_id i = invoiceId) (invoices s) = Some invoice
         \<and> s1 = s\<lparr>invoices := map (applyUpdate u invoiceId) (invoices s)\<rparr>
         \<and> getInvoiceById invoiceId s1 = (Inr r, s1)"
proof -
  from assms obtain invoice where f: "find (\<lambda>i. i_id i = invoiceId) (invoices s) = Some invoice"
    by (cases "find (\<lambda>i. i_id i = invoiceId) (invoices s)") (auto simp add: updateInvoiceStatus_def)
  with assms have run: "andThen (invoiceUpdate invoiceId u) (\<lambda>_. getInvoiceById invoiceId) s = (Inr r, s1)"
    by (simp add: updateInvoiceStatus_def)
  then obtain s2 where up: "invoiceUpdate invoiceId u s = (Inr (), s2)"
    and get: "getInvoiceById invoiceId s2 = (Inr r, s1)"
    by (auto simp add: andThen_def split: sum.splits prod.splits)
  from get getInvoiceById_state [of invoiceId s2] have "s1 = s2" by simp
  moreover from up have "s2 = s\<lparr>invoices := map (applyUpdate u invoiceId) (invoices s)\<rparr>"
    by (auto simp add: invoiceUpdate_def split: if_splits)
  ultimately show ?thesis using f get by auto
qed

lemma find_applyUpdate:
  "find (\<lambda>i. i_id i = invoiceId) (map (applyUpdate u k) xs) =
     map_option (applyUpdate u k) (find (\<lambda>i. i_id i = invoiceId) xs)"
  by (rule find_map_same) (simp add: applyUpdate_def)

lemma markInvoiceAsPaid_Inr:
  assumes "markInvoiceAsPaid now invoiceId paidAt s = (Inr r, s1)"
  shows "\<exists>invoice customer.
           find (\<lambda>i. i_id i = invoiceId) (invoices s) = Some invoice
         \<and> findCustomer s (i_customerId invoice) = Some customer
         \<and> s1 = s\<lparr>invoices := map (applyUpdate
                    \<lparr>us_status = PAID, us_paidAt = Value (case paidAt of None \<Rightarrow> now | Some p \<Rightarrow> p),
                     us_stripeInvoiceId = Undefined\<rparr> invoiceId) (invoices s)\<rparr>
         \<and> getInvoiceById invoiceId s1 = (Inr r, s1)
         \<and> r_status r = PAID \<and> r_paidAt r = Some (case paidAt of None \<Rightarrow> now | Some p \<Rightarrow> p)"
proof -
  let ?t = "case paidAt of None \<Rightarrow> now | Some p \<Rightarrow> p"
  let ?u = "\<lparr>us_status = PAID, us_paidAt = Value ?t, us_stripeInvoiceId = Undefined\<rparr>"
  from updateInvoiceStatus_Inr [OF assms [unfolded markInvoiceAsPaid_def]]
  obtain invoice where f: "find (\<lambda>i. i_id i = invoiceId) (invoices s) = Some invoice"
    and s1: "s1 = s\<lparr>invoices := map (applyUpdate ?u invoiceId) (invoices s)\<rparr>"
    and get: "getInvoiceById invoiceId s1 = (Inr r, s1)"
    by blast
  have f1: "find (\<lambda>i. i_id i = invoiceId) (invoices s1) = Some (applyUpdate ?u invoiceId invoice)"
    unfolding s1 using f by (simp add: find_applyUpdate)
  have idm: "i_id invoice = invoiceId" using f by (auto simp add: find_Some_iff)
  have c1: "findCustomer s1 = findCustomer s" by (rule findCustomer_cong) (simp add: s1)
  from get f1 idm c1 obtain customer where c: "findCustomer s (i_customerId invoice) = Some customer"
    by (cases "findCustomer s (i_customerId invoice)")
       (auto simp add: getInvoiceById_def applyUpdate_def)
  from get f1 idm c1 c have "r_status r = PAID \<and> r_paidAt r = Some ?t"
    by (auto simp add: getInvoiceById_def applyUpdate_def assign_def)
  with f c s1 get show ?thesis by blast
qed


text \<open>
  C8, as the code has it. After a \<open>markInvoiceAsPaid\<close> that went through, the invoice is
  \<open>PAID\<close> with \<open>paidAt\<close> = the argument of the call, or the clock reading of the call
  when there is none. A second call goes through as well and answers the same invoice,
  still \<open>PAID\<close>, but with \<open>paidAt\<close> set anew from the second call: its argument, or
  its own clock reading. So \<open>paidAt\<close> stays as it was only when the second call carries
  the same instant.
\<close>

theorem markInvoiceAsPaid_twice:
  assumes "markInvoiceAsPaid now1 invoiceId paid1 s = (Inr r1, s1)"
  shows "r_status r1 = PAID \<and> r_paidAt r1 = Some (case paid1 of None \<Rightarrow> now1 | Some p \<Rightarrow> p) \<and>
         (\<exists>s2. markInvoiceAsPaid now2 invoiceId paid2 s1 =
                  (Inr (r1\<lparr>r_paidAt := Some (case paid2 of None \<Rightarrow> now2 | Some p \<Rightarrow> p)\<rparr>), s2))"
proof -
  let ?t1 = "case paid1 of None \<Rightarrow> now1 | Some p \<Rightarrow> p"
  let ?t2 = "case paid2 of None \<Rightarrow> now2 | Some p \<Rightarrow> p"
  let ?u1 = "\<lparr>us_status = PAID, us_paidAt = Value ?t1, us_stripeInvoiceId = Undefined\<rparr>"
  let ?u2 = "\<lparr>us_status = PAID, us_paidAt = Value ?t2, us_stripeInvoiceId = Undefined\<rparr>"
  from markInvoiceAsPaid_Inr [OF assms] obtain invoice customer where
    f: "find (\<lambda>i. i_id i = invoiceId) (invoices s) = Some invoice"
    and c: "findCustomer s (i_customerId invoice) = Some customer"
    and s1: "s1 = s\<lparr>invoices := map (applyUpdate ?u1 invoiceId) (invoices s)\<rparr>"
    and get: "getInvoiceById invoiceId s1 = (Inr r1, s1)"
    and paid: "r_status r1 = PAID \<and> r_paidAt r1 = Some ?t1" by blast
  have idm: "i_id invoice = invoiceId" using f by (auto simp add: find_Some_iff)
  have f1: "find (\<lambda>i. i_id i = invoiceId) (invoices s1) = Some (applyUpdate ?u1 invoiceId invoice)"
    unfolding s1 using f by (simp add: find_applyUpdate)
  let ?s2 = "s1\<lparr>invoices := map (applyUpdate ?u2 invoiceId) (invoices s1)\<rparr>"
  have f2: "find (\<lambda>i. i_id i = invoiceId) (invoices ?s2) =
              Some (applyUpdate ?u2 invoiceId (applyUpdate ?u1 invoiceId invoice))"
    using f1 by (simp add: find_applyUpdate)
  have c2: "findCustomer ?s2 = findCustomer s" by (rule findCustomer_cong) (simp add: s1)
  have c1: "findCustomer s1 = findCustomer s" by (rule findCustomer_cong) (simp add: s1)
  have up: "invoiceUpdate invoiceId ?u2 s1 = (Inr (), ?s2)"
    by (simp add: invoiceUpdate_def)
  have r1: "getInvoiceById invoiceId ?s2 = (Inr (r1\<lparr>r_paidAt := Some ?t2\<rparr>), ?s2)"
    using get f1 f2 c c1 c2 idm
    by (auto simp add: getInvoiceById_def applyUpdate_def assign_def)
  have "markInvoiceAsPaid now2 invoiceId paid2 s1 = (Inr (r1\<lparr>r_paidAt := Some ?t2\<rparr>), ?s2)"
    using f1 up r1 by (simp add: markInvoiceAsPaid_def updateInvoiceStatus_def andThen_def)
  with paid show ?thesis by blast
qed

lemma markInvoiceAsPaid_first:
  "markInvoiceAsPaid 1707559300000 1 None pendingDb = (Inr paidResponse, paidDb)"
  by code_simp

theorem markInvoiceAsPaid_twice_witness:
  "markInvoiceAsPaid 1707559300000 1 None pendingDb = (Inr paidResponse, paidDb) \<and>
   r_status paidResponse = PAID \<and> r_paidAt paidResponse = Some 1707559300000 \<and>
   fst (markInvoiceAsPaid 1707559400000 1 (Some 1707559300000) paidDb) = Inr paidResponse"
proof -
  from markInvoiceAsPaid_twice [OF markInvoiceAsPaid_first, of 1707559400000 "Some 1707559300000"]
  have "r_status paidResponse = PAID \<and> r_paidAt paidResponse = Some 1707559300000 \<and>
        fst (markInvoiceAsPaid 1707559400000 1 (Some 1707559300000) paidDb) =
          Inr (paidResponse\<lparr>r_paidAt := Some 1707559300000\<rparr>)"
    by auto
  moreover have "paidResponse\<lparr>r_paidAt := Some 1707559300000\<rparr> = paidResponse"
    by (simp add: paidResponse_def pendingResponse_def)
  ultimately show ?thesis using markInvoiceAsPaid_first by simp
qed

text \<open>
  The claim C8 as stated keeps \<open>paidAt\<close> on the second call. An invoice marked paid at
  10:01:40 and marked paid again at 10:03:20 carries the second instant.
\<close>

theorem markInvoiceAsPaid_twice_counterexample:
  "map_sum id r_paidAt (fst (markInvoiceAsPaid 1707559300000 1 None pendingDb)) =
     Inr (Some 1707559300000) \<and>
   map_sum id r_paidAt (fst (markInvoiceAsPaid 1707559400000 1 None
        (snd (markInvoiceAsPaid 1707559300000 1 None pendingDb)))) =
     Inr (Some 1707559400000)"
  by code_simp

lemma invoiceCreate_invoices:
  "invoiceCreate row s = (x, s1) \<Longrightarrow>
     invoices s1 = invoices s \<or> invoices s1 = invoices s @ [row\<lparr>i_id := invoiceSeq s + 1\<rparr>]"
  by (auto simp add: invoiceCreate_def split: if_splits)

lemma lineItemCreateMany_invoices: "invoices (snd (lineItemCreateMany items s)) = invoices s"
  by (simp add: lineItemCreateMany_def)

lemma createInvoiceLineItems_invoices:
  "invoices (snd (createInvoiceLineItems tz now invoiceId customerId pStart pEnd s)) = invoices s"
proof -
  have "invoices (snd (andThen (lineItemCreateMany items) (\<lambda>_. ret ()) s)) = invoices s" for items
    using lineItemCreateMany_invoices [of items s]
    by (auto simp add: andThen_def ret_def split: prod.splits sum.splits)
  then show ?thesis
    by (simp add: createInvoiceLineItems_def split: option.splits)
qed

lemma generateInvoice_invoices:
  "invoices (snd (generateInvoice tz clock dto s)) = invoices s \<or>
   (\<exists>row. i_status row = PENDING \<and> invoices (snd (generateInvoice tz clock dto s)) = invoices s @ [row])"
proof (cases "checkForDuplicateInvoice s (dto_customerId dto) (dto_periodStart dto) (dto_periodEnd dto)")
  case True
  then show ?thesis by (simp add: generateInvoice_def)
next
  case nodup: False
  show ?thesis
  proof (cases "findCustomer s (dto_customerId dto)")
    case None
    with nodup show ?thesis by (simp add: generateInvoice_def)
  next
    case (Some customer)
    show ?thesis
    proof (cases "tierOf s customer")
      case None
      with nodup Some show ?thesis by (simp add: generateInvoice_def)
    next
      case (Some tier)
      let ?rest = "\<lambda>invoice. andThen (createInvoiceLineItems tz (atLineItems clock) (i_id invoice)
                                (dto_customerId dto) (dto_periodStart dto) (dto_periodEnd dto))
                     (\<lambda>_. getInvoiceById (i_id invoice))"
      have run: "generateInvoice tz clock dto s =
                   andThen (invoiceCreate (invoiceData tz clock dto s tier)) ?rest s"
        using nodup \<open>findCustomer s (dto_customerId dto) = Some customer\<close> Some
        by (simp add: generateInvoice_def)
      obtain x s1 where cr: "invoiceCreate (invoiceData tz clock dto s tier) s = (x, s1)"
        by (cases "invoiceCreate (invoiceData tz clock dto s tier) s") auto
      have rest: "invoices (snd (?rest invoice s1)) = invoices s1" for invoice
        using createInvoiceLineItems_invoices [of tz "atLineItems clock" "i_id invoice"
            "dto_customerId dto" "dto_periodStart dto" "dto_periodEnd dto" s1]
          getInvoiceById_state [of "i_id invoice"]
        by (auto simp add: andThen_def split: prod.splits sum.splits)
      have "invoices (snd (generateInvoice tz clock dto s)) = invoices s1"
        unfolding run using cr rest by (cases x) (simp_all add: andThen_def)
      moreover have "i_status ((invoiceData tz clock dto s tier)\<lparr>i_id := invoiceSeq s + 1\<rparr>) = PENDING"
        by (simp add: invoiceData_def)
      ultimately show ?thesis using invoiceCreate_invoices [OF cr] by auto
    qed
  qed
qed

lemma updateInvoiceStatus_invoices:
  "invoices (snd (updateInvoiceStatus invoiceId u s)) = invoices s \<or>
   invoices (snd (updateInvoiceStatus invoiceId u s)) = map (applyUpdate u invoiceId) (invoices s)"
proof (cases "find (\<lambda>i. i_id i = invoiceId) (invoices s)")
  case None
  then show ?thesis by (simp add: updateInvoiceStatus_def)
next
  case (Some invoice)
  then have run: "updateInvoiceStatus invoiceId u s =
                    andThen (invoiceUpdate invoiceId u) (\<lambda>_. getInvoiceById invoiceId) s"
    by (simp add: updateInvoiceStatus_def)
  show ?thesis
    unfolding run using getInvoiceById_state [of invoiceId]
    by (auto simp add: andThen_def invoiceUpdate_def split: prod.splits sum.splits if_splits)
qed

lemma perform_keeps:
  assumes "paidHasPaidAt s" and "suppliesPaidAt s x"
  shows "paidHasPaidAt (perform tz x s)"
proof (cases x)
  case (GenerateInvoice clock dto)
  with assms(1) generateInvoice_invoices [of tz clock dto s] show ?thesis
    by (auto simp add: paidHasPaidAt_def)
next
  case (UpdateInvoiceStatus invoiceId u)
  have "list_all (\<lambda>i. i_status i = PAID \<longrightarrow> i_paidAt i \<noteq> None)
          (map (applyUpdate u invoiceId) (invoices s))"
    using assms UpdateInvoiceStatus
    by (auto simp add: paidHasPaidAt_def list_all_iff applyUpdate_def assign_def
        split: optional.splits)
  with assms(1) updateInvoiceStatus_invoices [of invoiceId u s] UpdateInvoiceStatus
  show ?thesis by (auto simp add: paidHasPaidAt_def)
next
  case (MarkInvoiceAsPaid now invoiceId paidAt)
  let ?u = "\<lparr>us_status = PAID, us_paidAt = Value (case paidAt of None \<Rightarrow> now | Some p \<Rightarrow> p),
             us_stripeInvoiceId = Undefined\<rparr>"
  have "list_all (\<lambda>i. i_status i = PAID \<longrightarrow> i_paidAt i \<noteq> None)
          (map (applyUpdate ?u invoiceId) (invoices s))"
    using assms(1)
    by (auto simp add: paidHasPaidAt_def list_all_iff applyUpdate_def assign_def)
  with assms(1) updateInvoiceStatus_invoices [of invoiceId ?u s] MarkInvoiceAsPaid
  show ?thesis by (auto simp add: paidHasPaidAt_def markInvoiceAsPaid_def)
next
  case (MarkOverdueInvoices now)
  with assms(1) show ?thesis
    by (auto simp add: paidHasPaidAt_def markOverdueInvoices_def list_all_iff)
qed


text \<open>
  C9, as the code has it. The invariant \<open>status = PAID\<close> implies \<open>paidAt\<close> is not null
  holds after every sequence of \<open>generateInvoice\<close>, \<open>updateInvoiceStatus\<close>,
  \<open>markInvoiceAsPaid\<close> and \<open>markOverdueInvoices\<close> that starts in a store where it
  holds, provided that each \<open>updateInvoiceStatus\<close> that sets \<open>PAID\<close> carries a
  \<open>paidAt\<close>, or leaves \<open>paidAt\<close> out for an invoice that has one already.
\<close>

theorem paidHasPaidAt_preserved:
  assumes "paidHasPaidAt s" and "allSupplyPaidAt tz s ops"
  shows "paidHasPaidAt (performAll tz ops s)"
  using assms
proof (induction ops arbitrary: s)
  case Nil
  then show ?case by simp
next
  case (Cons x xs)
  from Cons.prems have "paidHasPaidAt (perform tz x s)" and "allSupplyPaidAt tz (perform tz x s) xs"
    by (simp_all add: perform_keeps)
  then show ?case using Cons.IH by simp
qed

lemma sample_ops_supply:
  "paidHasPaidAt pendingDb \<and>
   allSupplyPaidAt utcZone pendingDb
     [MarkInvoiceAsPaid 1707559300000 1 None,
      UpdateInvoiceStatus 1 \<lparr>us_status = PAID, us_paidAt = Undefined, us_stripeInvoiceId = Undefined\<rparr>,
      MarkOverdueInvoices 1709000000000,
      GenerateInvoice (atOnce 1709000000000) februaryCall]"
  by code_simp

theorem paidHasPaidAt_preserved_witness:
  "paidHasPaidAt pendingDb \<and>
   allSupplyPaidAt utcZone pendingDb
     [MarkInvoiceAsPaid 1707559300000 1 None,
      UpdateInvoiceStatus 1 \<lparr>us_status = PAID, us_paidAt = Undefined, us_stripeInvoiceId = Undefined\<rparr>,
      MarkOverdueInvoices 1709000000000,
      GenerateInvoice (atOnce 1709000000000) februaryCall] \<and>
   paidHasPaidAt (performAll utcZone
     [MarkInvoiceAsPaid 1707559300000 1 None,
      UpdateInvoiceStatus 1 \<lparr>us_status = PAID, us_paidAt = Undefined, us_stripeInvoiceId = Undefined\<rparr>,
      MarkOverdueInvoices 1709000000000,
      GenerateInvoice (atOnce 1709000000000) februaryCall] pendingDb)"
  using sample_ops_supply
    paidHasPaidAt_preserved [of pendingDb utcZone
     "[MarkInvoiceAsPaid 1707559300000 1 None,
      UpdateInvoiceStatus 1 \<lparr>us_status = PAID, us_paidAt = Undefined, us_stripeInvoiceId = Undefined\<rparr>,
      MarkOverdueInvoices 1709000000000,
      GenerateInvoice (atOnce 1709000000000) februaryCall]"]
  by blast

text \<open>
  The claim C9 as stated holds for every sequence. \<open>updateInvoiceStatus\<close> with status
  \<open>PAID\<close> and no \<open>paidAt\<close>, on the pending invoice, leaves a paid invoice without
  \<open>paidAt\<close>.
\<close>

theorem paidHasPaidAt_counterexample:
  "paidHasPaidAt pendingDb \<and>
   \<not> paidHasPaidAt (performAll utcZone
        [UpdateInvoiceStatus 1
           \<lparr>us_status = PAID, us_paidAt = Undefined, us_stripeInvoiceId = Undefined\<rparr>] pendingDb)"
  by code_simp

end
